theory Spec2Isabelle
  imports Complex_Main "HOL-Library.Word" "HOL-Library.Sublist"
begin

section \<open>JavaScript strings and values\<close>

text \<open>
  A JavaScript string is a sequence of UTF-16 code units; \<open>length\<close>, \<open>split\<close>,
  \<open>trim\<close>, \<open>includes\<close> and the regular expressions of the program (none has the
  \<open>u\<close> flag) all work on code units.
\<close>

type_synonym jschar = "16 word"
type_synonym jsstring = "jschar list"

text \<open>An ASCII literal of the source, as code units.\<close>

definition lit :: "string \<Rightarrow> jsstring" where
  "lit s = map of_char s"

text \<open>
  Numbers are IEEE doubles; a finite double is the rational it denotes (the two zeros are
  not told apart: no operation of the program does).
\<close>

datatype jsnum = NaN | PosInf | NegInf | Fin rat

datatype jsval =
    JUndefined
  | JNull
  | JBool bool
  | JNum jsnum
  | JStr jsstring
  | JArr "jsval list"
  | JObj "(jsstring \<times> jsval) list"

text \<open>\<open>ToBoolean\<close>: what \<open>!v\<close>, \<open>v || w\<close> and \<open>v ? a : b\<close> test.\<close>

fun truthy :: "jsval \<Rightarrow> bool" where
  "truthy JUndefined = False"
| "truthy JNull = False"
| "truthy (JBool b) = b"
| "truthy (JNum n) = (n \<noteq> NaN \<and> n \<noteq> Fin 0)"
| "truthy (JStr s) = (s \<noteq> [])"
| "truthy (JArr xs) = True"
| "truthy (JObj kvs) = True"

datatype error = TypeError | ReferenceError

subsection \<open>White space, \<open>split\<close>, \<open>trim\<close>, \<open>includes\<close>\<close>

text \<open>
  The class \<open>\s\<close> of a regular expression and the characters \<open>trim\<close> strips are the
  same set: WhiteSpace (TAB, VT, FF, SP, NBSP, ZWNBSP and the category Zs) and
  LineTerminator (LF, CR, LS, PS).
\<close>

definition isWhiteSpace :: "jschar \<Rightarrow> bool" where
  "isWhiteSpace c \<longleftrightarrow>
     c = 0x09 \<or> c = 0x0A \<or> c = 0x0B \<or> c = 0x0C \<or> c = 0x0D \<or> c = 0x20 \<or> c = 0xA0 \<or>
     c = 0x1680 \<or> (0x2000 \<le> c \<and> c \<le> 0x200A) \<or> c = 0x2028 \<or> c = 0x2029 \<or>
     c = 0x202F \<or> c = 0x205F \<or> c = 0x3000 \<or> c = 0xFEFF"

text \<open>
  \<open>s.split(/\s+/)\<close> and \<open>s.split(/[...]/)\<close>, after the algorithm of
  \<open>RegExp.prototype[Symbol.split]\<close>: the string is scanned from the left; \<open>cur\<close> is
  the piece since the last separator. Where the expression matches, the piece is emitted and
  the scan resumes after the match (for \<open>\s+\<close> the match is greedy: the whole run);
  the piece open at the end of the string is emitted too, so a separator at either end
  leaves an empty string there, and the empty string splits into one empty piece.
\<close>

function split_runs :: "('a \<Rightarrow> bool) \<Rightarrow> 'a list \<Rightarrow> 'a list \<Rightarrow> 'a list list" where
  "split_runs P cur [] = [cur]"
| "split_runs P cur (c # cs) =
     (if P c then cur # split_runs P [] (dropWhile P cs)
      else split_runs P (cur @ [c]) cs)"
  by pat_completeness auto
termination
  by (relation "measure (\<lambda>(P, cur, s). length s)")
     (auto simp: le_imp_less_Suc length_dropWhile_le)

fun split_chars :: "('a \<Rightarrow> bool) \<Rightarrow> 'a list \<Rightarrow> 'a list \<Rightarrow> 'a list list" where
  "split_chars P cur [] = [cur]"
| "split_chars P cur (c # cs) =
     (if P c then cur # split_chars P [] cs
      else split_chars P (cur @ [c]) cs)"

definition split_ws :: "jsstring \<Rightarrow> jsstring list" where
  "split_ws s = split_runs isWhiteSpace [] s"

definition trim :: "jsstring \<Rightarrow> jsstring" where
  "trim s = rev (dropWhile isWhiteSpace (rev (dropWhile isWhiteSpace s)))"

text \<open>\<open>k.includes(t)\<close>: \<open>t\<close> is looked for at every position of \<open>k\<close>, the end included.\<close>

fun str_includes :: "'a list \<Rightarrow> 'a list \<Rightarrow> bool" where
  "str_includes [] t = (t = [])"
| "str_includes (c # cs) t = (prefix t (c # cs) \<or> str_includes cs t)"

text \<open>\<open>xs.join(sep)\<close> on an array of strings.\<close>

fun join :: "'a list \<Rightarrow> 'a list list \<Rightarrow> 'a list" where
  "join sep [] = []"
| "join sep [x] = x"
| "join sep (x # y # ys) = x @ sep @ join sep (y # ys)"

text \<open>
  A \<open>Set\<close> of strings keeps its members in insertion order; \<open>new Set(xs)\<close> adds the
  elements of \<open>xs\<close> one by one, \<open>[...S]\<close> reads them back in that order.
\<close>

definition Set_add :: "'a list \<Rightarrow> 'a \<Rightarrow> 'a list" where
  "Set_add S x = (if x \<in> set S then S else S @ [x])"

definition new_Set :: "'a list \<Rightarrow> 'a list" where
  "new_Set xs = foldl Set_add [] xs"

definition Set_has :: "'a list \<Rightarrow> 'a \<Rightarrow> bool" where
  "Set_has S x \<longleftrightarrow> x \<in> set S"

section \<open>Tokeniser\<close>

text \<open>
  A method call on a value that has no such method raises a \<open>TypeError\<close>:
  \<open>query.split(/\s+/)\<close> returns only when \<open>query\<close> is a string.
\<close>

definition call_split_ws :: "jsval \<Rightarrow> error + jsstring list" where
  "call_split_ws v = (case v of JStr s \<Rightarrow> Inr (split_ws s) | _ \<Rightarrow> Inl TypeError)"

text \<open>\<open>typeof t === 'string' && t.length >= 2\<close>, the test of the array filter.\<close>

definition is_token :: "jsval \<Rightarrow> jsstring option" where
  "is_token t = (case t of JStr s \<Rightarrow> if 2 \<le> length s then Some s else None | _ \<Rightarrow> None)"

text \<open>
  \<open>tokenise\<close> of the variant with the expand/OR toggles (src/unnamed/part_000, lines
  113-126): a falsy argument gives \<open>[]\<close>; an array is filtered to its strings of length
  at least 2; a string is split at white space, filtered and deduplicated through a
  \<open>Set\<close>; anything else gives \<open>[]\<close>.
\<close>

definition tokenise :: "jsval \<Rightarrow> error + jsstring list" where
  "tokenise query =
     (if \<not> truthy query then Inr []
      else case query of
        JArr ts \<Rightarrow> Inr (List.map_filter is_token ts)
      | JStr s \<Rightarrow>
          (case call_split_ws query of
             Inl e \<Rightarrow> Inl e
           | Inr parts \<Rightarrow> Inr (new_Set (filter (\<lambda>t. 2 \<le> length t) parts)))
      | _ \<Rightarrow> Inr [])"

text \<open>
  \<open>tokenise\<close> of src/UI/app.js (lines 91-93) is the one line
  \<open>query.split(/\s+/).filter(t => t.length >= 2)\<close>, with no test of the argument
  and no \<open>Set\<close>.
\<close>

definition tokenise_UI :: "jsval \<Rightarrow> error + jsstring list" where
  "tokenise_UI query =
     (case call_split_ws query of
        Inl e \<Rightarrow> Inl e
      | Inr parts \<Rightarrow> Inr (filter (\<lambda>t. 2 \<le> length t) parts))"

text \<open>A token list handed back as an array value.\<close>

definition toArray :: "jsstring list \<Rightarrow> jsval" where
  "toArray ts = JArr (map JStr ts)"

section \<open>HTML escaping and highlighting\<close>

text \<open>
  \<open>escHtml\<close> (lines 22-28) runs four global replacements one after the other, the
  ampersand first. The argument here is a string; \<open>String(str || '')\<close> leaves a string
  as it is.
\<close>

definition replace_char :: "jschar \<Rightarrow> jsstring \<Rightarrow> jsstring \<Rightarrow> jsstring" where
  "replace_char c r s = concat (map (\<lambda>x. if x = c then r else [x]) s)"

definition escHtml :: "jsstring \<Rightarrow> jsstring" where
  "escHtml str =
     replace_char 0x22 (lit ''&quot;'')
       (replace_char 0x3E (lit ''&gt;'')
         (replace_char 0x3C (lit ''&lt;'')
           (replace_char 0x26 (lit ''&amp;'') str)))"

text \<open>
  The class \<open>[.*+?^${}()|[\]\\]\<close> of line 131, character by character in the order of
  the source, and the replacement \<open>'\\$&'\<close>: a backslash, then the character matched.
\<close>

definition in_escape_class :: "jschar \<Rightarrow> bool" where
  "in_escape_class c \<longleftrightarrow>
     c = 0x2E \<or> c = 0x2A \<or> c = 0x2B \<or> c = 0x3F \<or> c = 0x5E \<or> c = 0x24 \<or> c = 0x7B \<or>
     c = 0x7D \<or> c = 0x28 \<or> c = 0x29 \<or> c = 0x7C \<or> c = 0x5B \<or> c = 0x5D \<or> c = 0x5C"

definition escape_token :: "jsstring \<Rightarrow> jsstring" where
  "escape_token t = concat (map (\<lambda>c. if in_escape_class c then [0x5C, c] else [c]) t)"

definition pattern_source :: "jsstring list \<Rightarrow> jsstring" where
  "pattern_source tokens = lit ''('' @ join (lit ''|'') (map escape_token tokens) @ lit '')''"

subsection \<open>The pattern grammar\<close>

text \<open>
  \<open>SyntaxCharacter\<close> of the ECMAScript pattern grammar:
  \<open>^ $ \ . * + ? ( ) [ ] { } |\<close>. Every other code unit is a \<open>PatternCharacter\<close>
  and matches itself; a backslash before a \<open>SyntaxCharacter\<close> is an identity escape and
  matches that character.
\<close>

definition isSyntaxCharacter :: "jschar \<Rightarrow> bool" where
  "isSyntaxCharacter c \<longleftrightarrow>
     c = 0x5E \<or> c = 0x24 \<or> c = 0x5C \<or> c = 0x2E \<or> c = 0x2A \<or> c = 0x2B \<or> c = 0x3F \<or>
     c = 0x28 \<or> c = 0x29 \<or> c = 0x5B \<or> c = 0x5D \<or> c = 0x7B \<or> c = 0x7D \<or> c = 0x7C"

text \<open>
  \<open>new RegExp(src, 'g')\<close> is modelled on the fragment of the grammar that has no
  operator: one capturing group around a disjunction whose alternatives are sequences of
  pattern characters and identity-escaped syntax characters. On the fragment the
  constructor returns, and the expression is the list of its alternatives, each a literal
  string. \<open>None\<close> stands for every other source: those on which the constructor raises a
  \<open>SyntaxError\<close> (an unbalanced parenthesis, a lone quantifier, a backslash at the end)
  and those whose operators give the match another meaning.

  \<open>parse_alternatives cur rest\<close> reads the source after the opening parenthesis;
  \<open>cur\<close> is the alternative read so far.
\<close>

datatype regexp = Literals "jsstring list"

fun parse_alternatives :: "jsstring \<Rightarrow> jsstring \<Rightarrow> jsstring list option" where
  "parse_alternatives cur [] = None"
| "parse_alternatives cur (c # cs) =
     (if c = 0x29 then (if cs = [] then Some [cur] else None)
      else if c = 0x7C then map_option ((#) cur) (parse_alternatives [] cs)
      else if c = 0x5C then
        (case cs of
           [] \<Rightarrow> None
         | d # ds \<Rightarrow> if isSyntaxCharacter d then parse_alternatives (cur @ [d]) ds else None)
      else if isSyntaxCharacter c then None
      else parse_alternatives (cur @ [c]) cs)"

definition RegExp_new :: "jsstring \<Rightarrow> regexp option" where
  "RegExp_new src =
     (case src of
        [] \<Rightarrow> None
      | c # rest \<Rightarrow> if c = 0x28 then map_option Literals (parse_alternatives [] rest) else None)"

text \<open>
  A disjunction tries its alternatives from the left: at a position the match is the first
  alternative that is a prefix of the rest of the input. The expression has no \<open>i\<close> flag,
  so code units are compared as they are.
\<close>

fun match_here :: "regexp \<Rightarrow> jsstring \<Rightarrow> jsstring option" where
  "match_here (Literals alts) s = find (\<lambda>a. prefix a s) alts"

text \<open>
  \<open>s.replace(re, '<mark class="hl">$1</mark>')\<close> with the \<open>g\<close> flag: the input
  is scanned from the left; where the expression matches, the template is emitted with
  \<open>$1\<close> standing for the first group (here the whole match) and the scan resumes after the
  match, or one character further when the match is empty; other characters are copied.
\<close>

definition mark :: "jsstring \<Rightarrow> jsstring" where
  "mark m = lit ''<mark class=\"hl\">'' @ m @ lit ''</mark>''"

fun replace_marked :: "regexp \<Rightarrow> jsstring \<Rightarrow> jsstring" where
  "replace_marked re [] = (case match_here re [] of None \<Rightarrow> [] | Some m \<Rightarrow> mark m)"
| "replace_marked re (c # cs) =
     (case match_here re (c # cs) of
        None \<Rightarrow> c # replace_marked re cs
      | Some m \<Rightarrow>
          if m = [] then mark m @ c # replace_marked re cs
          else mark m @ replace_marked re (drop (length m - 1) cs))"

text \<open>
  \<open>highlight\<close> (lines 129-134). \<open>None\<close> is \<open>None\<close> of \<open>RegExp_new\<close>: the
  constructor raised, or built an expression with operators.
\<close>

definition highlight :: "jsstring \<Rightarrow> jsstring list \<Rightarrow> jsstring option" where
  "highlight text tokens =
     (if text = [] \<or> tokens = [] then Some (escHtml text)
      else case RegExp_new (pattern_source tokens) of
        None \<Rightarrow> None
      | Some re \<Rightarrow> Some (replace_marked re (escHtml text)))"

section \<open>Page state\<close>

text \<open>
  The globals \<open>_queryTokens\<close> and \<open>_expandedOnlyTokens\<close>, and the two elements
  \<open>renderExpandedQuery\<close> writes: the class \<open>visible\<close> of \<open>#expandedBox\<close> and the
  \<open>innerHTML\<close> of \<open>#expandedTerms\<close>. \<open>_queryTokens\<close> is declared with the value
  \<open>[]\<close>. \<open>_expandedOnlyTokens\<close> exists in src/unnamed/part_000 only and has no
  declaration there: it comes into being with the first assignment (line 235), and reading
  it before raises a \<open>ReferenceError\<close>; \<open>None\<close> is the global not yet assigned.
\<close>

record ui =
  queryTokens :: "jsstring list"
  expandedOnlyTokens :: "jsstring list option"
  expandedBox_visible :: bool
  expandedTerms :: jsstring

text \<open>
  A document of the response. A field the backend left out reads as \<open>undefined\<close>, which
  every use below tests for falsity first, as it does the empty string: an absent field is
  the empty string here.
\<close>

record doc =
  title :: jsstring
  abs_text :: jsstring
  authors :: jsstring
  advisors :: jsstring
  co_advisors :: jsstring
  keyword_text :: jsstring
  score :: jsnum

record response =
  expanded_query :: jsval
  results :: "doc list"

datatype fetched = Failed | Responded response

text \<open>The page before the first search.\<close>

definition initial_ui :: ui where
  "initial_ui =
     \<lparr>queryTokens = [], expandedOnlyTokens = None, expandedBox_visible = False,
      expandedTerms = []\<rparr>"

section \<open>The expanded-query box\<close>

definition exp_term :: "jsstring list \<Rightarrow> jsstring \<Rightarrow> jsstring" where
  "exp_term origSet tok =
     lit ''<span class=\"exp-term '' @
     (if Set_has origSet tok then lit ''original'' else lit ''added'') @
     lit ''\">'' @ escHtml tok @ lit ''</span>''"

text \<open>
  \<open>renderExpandedQuery\<close> of src/unnamed/part_000 (lines 137-167). An exception of
  \<open>tokenise\<close> would leave the function before it touches the page.
\<close>

definition renderExpandedQuery :: "jsstring \<Rightarrow> jsval \<Rightarrow> ui \<Rightarrow> error + ui" where
  "renderExpandedQuery original expanded st =
     (if \<not> truthy expanded then Inr (st\<lparr>expandedBox_visible := False\<rparr>)
      else case tokenise (JStr original) of
        Inl e \<Rightarrow> Inl e
      | Inr origTokens \<Rightarrow>
          (case tokenise expanded of
             Inl e \<Rightarrow> Inl e
           | Inr expTokens \<Rightarrow>
               (let origSet = new_Set origTokens;
                    expSet = new_Set expTokens;
                    hasNewTerm = list_ex (\<lambda>t. \<not> Set_has origSet t) expSet
                in if \<not> hasNewTerm then Inr (st\<lparr>expandedBox_visible := False\<rparr>)
                   else Inr (st\<lparr>expandedTerms := concat (map (exp_term origSet) expTokens),
                                 expandedBox_visible := True\<rparr>))))"

text \<open>
  \<open>renderExpandedQuery\<close> of src/UI/app.js (lines 104-117). \<open>original\<close> is a string,
  so \<open>expanded === original\<close> holds exactly when \<open>expanded\<close> is the same string.
\<close>

definition renderExpandedQuery_UI :: "jsstring \<Rightarrow> jsval \<Rightarrow> ui \<Rightarrow> error + ui" where
  "renderExpandedQuery_UI original expanded st =
     (if \<not> truthy expanded \<or> expanded = JStr original
      then Inr (st\<lparr>expandedBox_visible := False\<rparr>)
      else case tokenise_UI (JStr original) of
        Inl e \<Rightarrow> Inl e
      | Inr origTokens \<Rightarrow>
          (let originalTokens = new_Set origTokens in
           case tokenise_UI expanded of
             Inl e \<Rightarrow> Inl e
           | Inr expTokens \<Rightarrow>
               Inr (st\<lparr>expandedTerms := concat (map (exp_term originalTokens) expTokens),
                       expandedBox_visible := True\<rparr>)))"

section \<open>Person rows and keywords\<close>

text \<open>The separator class \<open>[\<dots>,;\/]\<close> of line 323: Arabic comma, comma, semicolon, slash.\<close>

definition isNameSeparator :: "jschar \<Rightarrow> bool" where
  "isNameSeparator c \<longleftrightarrow> c = 0x060C \<or> c = 0x2C \<or> c = 0x3B \<or> c = 0x2F"

definition person_names :: "jsstring \<Rightarrow> jsstring list" where
  "person_names v = filter (\<lambda>n. n \<noteq> []) (map trim (split_chars isNameSeparator [] v))"

text \<open>
  \<open>buildPersonRow\<close> (lines 321-333). With no name left, \<open>names[0]\<close> is
  \<open>undefined\<close> and \<open>escHtml(undefined)\<close> is \<open>String(undefined || '')\<close>, the empty
  string.
\<close>

definition buildPersonRow :: "jsstring \<Rightarrow> jsstring \<Rightarrow> jsstring \<Rightarrow> jsstring" where
  "buildPersonRow icon label v =
     (if v = [] \<or> trim v = [] then []
      else let names = person_names v;
               nameHtml =
                 (if length names > 1
                  then lit ''<div class=\"person-name-list\">'' @
                       concat (map (\<lambda>n. lit ''<span class=\"person-name-chip\">'' @ escHtml n @
                                          lit ''</span>'') names) @
                       lit ''</div>''
                  else lit ''<span class=\"person-name\">'' @
                       escHtml (case names of [] \<Rightarrow> [] | n # _ \<Rightarrow> n) @ lit ''</span>'')
           in lit ''<div class=\"person-row\">'' @
              lit ''<span class=\"person-icon\">'' @ icon @ lit ''</span>'' @
              lit ''<span class=\"person-label\">'' @ label @ lit '':</span>'' @
              nameHtml @ lit ''</div>'')"

text \<open>
  \<open>buildKeywords\<close> (lines 336-348) reads the global \<open>_queryTokens\<close>. The flag
  \<open>isMatch\<close> of a keyword is computed first, the chip drawn from it.
\<close>

definition keywords_of :: "jsstring \<Rightarrow> jsstring list" where
  "keywords_of raw = filter (\<lambda>k. k \<noteq> []) (map trim (split_chars (\<lambda>c. c = 0x0A) [] raw))"

definition isMatch :: "jsstring list \<Rightarrow> jsstring \<Rightarrow> bool" where
  "isMatch tokens k = list_ex (\<lambda>t. str_includes k t \<or> str_includes t k) tokens"

definition keyword_chip :: "jsstring list \<Rightarrow> jsstring \<Rightarrow> jsstring" where
  "keyword_chip tokens k =
     lit ''<span class=\"'' @
     (if isMatch tokens k then lit ''keyword-chip keyword-chip--match'' else lit ''keyword-chip'') @
     lit ''\">'' @ escHtml k @ lit ''</span>''"

definition keywords_label :: jsstring where
  "keywords_label =
     [0xD83D, 0xDD11, 0x20, 0x6A9, 0x644, 0x6CC, 0x62F, 0x648, 0x627, 0x698, 0x647, 0x200C,
      0x647, 0x627]"

definition buildKeywords :: "ui \<Rightarrow> jsstring \<Rightarrow> jsstring" where
  "buildKeywords st raw =
     (if raw = [] \<or> trim raw = [] then []
      else let kws = keywords_of raw in
        if kws = [] then []
        else lit ''<div class=\"card-keywords-wrap\">'' @
             lit ''<div class=\"keywords-label\">'' @ keywords_label @ lit ''</div>'' @
             lit ''<div class=\"keywords-list\">'' @
             concat (map (keyword_chip (queryTokens st)) kws) @ lit ''</div></div>'')"

section \<open>The search\<close>

text \<open>
  \<open>runSearch\<close> of src/unnamed/part_000 (lines 170-267), as far as it writes the page
  state: \<open>input\<close> is the value of the search field, \<open>fetched\<close> what the request
  gave (\<open>Failed\<close>: the request, its status or its body raised). An exception inside the
  \<open>try\<close> block is caught; the state is then the one reached so far. The cards are drawn
  from the state this function returns.
\<close>

definition runSearch :: "jsstring \<Rightarrow> fetched \<Rightarrow> ui \<Rightarrow> error + ui" where
  "runSearch input fetched st =
     (let query = trim input in
      if query = [] then Inr st
      else case tokenise (JStr query) of
        Inl e \<Rightarrow> Inl e
      | Inr qtokens \<Rightarrow>
          (let st1 = st\<lparr>queryTokens := qtokens, expandedBox_visible := False\<rparr> in
           case fetched of
             Failed \<Rightarrow> Inr st1
           | Responded data \<Rightarrow>
               (case renderExpandedQuery query (expanded_query data) st1 of
                  Inl e \<Rightarrow> Inr st1
                | Inr st2 \<Rightarrow>
                    (let st3 = st2\<lparr>expandedOnlyTokens := Some []\<rparr> in
                     if truthy (expanded_query data) then
                       (case tokenise (expanded_query data) of
                          Inl e \<Rightarrow> Inr st3
                        | Inr expTokens \<Rightarrow> Inr (st3\<lparr>expandedOnlyTokens := Some expTokens\<rparr>))
                     else Inr st3))))"

text \<open>
  \<open>runSearch\<close> of src/UI/app.js (lines 120-205): after the box is drawn,
  \<open>_queryTokens\<close> is overwritten with the tokens of the expanded query.
\<close>

definition runSearch_UI :: "jsstring \<Rightarrow> fetched \<Rightarrow> ui \<Rightarrow> error + ui" where
  "runSearch_UI input fetched st =
     (let query = trim input in
      if query = [] then Inr st
      else case tokenise_UI (JStr query) of
        Inl e \<Rightarrow> Inl e
      | Inr qtokens \<Rightarrow>
          (let st1 = st\<lparr>queryTokens := qtokens, expandedBox_visible := False\<rparr> in
           case fetched of
             Failed \<Rightarrow> Inr st1
           | Responded data \<Rightarrow>
               (case renderExpandedQuery_UI query (expanded_query data) st1 of
                  Inl e \<Rightarrow> Inr st1
                | Inr st2 \<Rightarrow>
                    if truthy (expanded_query data) then
                      (case tokenise_UI (expanded_query data) of
                         Inl e \<Rightarrow> Inr st2
                       | Inr expTokens \<Rightarrow> Inr (st2\<lparr>queryTokens := expTokens\<rparr>))
                    else Inr st2)))"

text \<open>
  The keyword section of the card of a document, as \<open>renderCardBody\<close> (line 311) asks
  for it, and the flags of its chips.
\<close>

definition card_keywords :: "ui \<Rightarrow> doc \<Rightarrow> jsstring" where
  "card_keywords st d = buildKeywords st (keyword_text d)"

definition keyword_flags :: "ui \<Rightarrow> doc \<Rightarrow> (jsstring \<times> bool) list" where
  "keyword_flags st d = map (\<lambda>k. (k, isMatch (queryTokens st) k)) (keywords_of (keyword_text d))"

text \<open>
  The abstract of a card (lines 303-309 of src/unnamed/part_000) is highlighted with
  \<open>_expandedOnlyTokens\<close>, which is read only when the document has an abstract;
  src/UI/app.js (lines 241-247) uses \<open>_queryTokens\<close>.
\<close>

definition abstract_label :: jsstring where
  "abstract_label = [0x646, 0x645, 0x627, 0x6CC, 0x634, 0x20, 0x686, 0x6A9, 0x6CC, 0x62F, 0x647]"

definition card_abstract_with :: "jsstring list \<Rightarrow> doc \<Rightarrow> jsstring option" where
  "card_abstract_with tokens d =
     (if abs_text d = [] then Some []
      else map_option
        (\<lambda>h. lit ''<div class=\"card-abstract-wrap\">'' @
              lit ''<div class=\"abstract-toggle\"><span class=\"toggle-arrow\">'' @ [0x25BC] @
              lit ''</span>'' @
              lit ''<span class=\"toggle-text\">'' @ abstract_label @ lit ''</span></div>'' @
              lit ''<div class=\"card-abstract\">'' @ h @ lit ''</div>'' @
              lit ''</div>'')
        (highlight (abs_text d) tokens))"

definition card_abstract :: "ui \<Rightarrow> doc \<Rightarrow> error + jsstring option" where
  "card_abstract st d =
     (if abs_text d = [] then Inr (Some [])
      else case expandedOnlyTokens st of
        None \<Rightarrow> Inl ReferenceError
      | Some tokens \<Rightarrow> Inr (card_abstract_with tokens d))"

definition card_abstract_UI :: "ui \<Rightarrow> doc \<Rightarrow> jsstring option" where
  "card_abstract_UI st d = card_abstract_with (queryTokens st) d"

text \<open>
  \<open>renderCardBody\<close> (lines 296-318 of src/unnamed/part_000, 234-256 of src/UI/app.js):
  the rows of the three person fields that are not empty strings, the abstract, the
  keywords; nothing at all when all three are empty. The icons and labels are the literals
  of the source, as code units.
\<close>

definition card_people :: "doc \<Rightarrow> jsstring" where
  "card_people d =
     concat (filter (\<lambda>r. r \<noteq> [])
       [buildPersonRow [0x270D, 0xFE0F]
          [0x67E, 0x62F, 0x6CC, 0x62F, 0x622, 0x648, 0x631] (authors d),
        buildPersonRow [0xD83D, 0xDC68, 0x200D, 0xD83C, 0xDFEB]
          [0x627, 0x633, 0x62A, 0x627, 0x62F, 0x20, 0x631, 0x627, 0x647, 0x646, 0x645, 0x627]
          (advisors d),
        buildPersonRow [0xD83D, 0xDC68, 0x200D, 0xD83D, 0xDCBC]
          [0x627, 0x633, 0x62A, 0x627, 0x62F, 0x20, 0x645, 0x634, 0x627, 0x648, 0x631]
          (co_advisors d)])"

definition card_body :: "jsstring \<Rightarrow> jsstring \<Rightarrow> jsstring \<Rightarrow> jsstring" where
  "card_body people abstract keywords =
     (if people = [] \<and> abstract = [] \<and> keywords = [] then []
      else lit ''<div class=\"card-body\">'' @
           (if people \<noteq> [] then lit ''<div class=\"card-people\">'' @ people @ lit ''</div>''
            else []) @
           abstract @ keywords @ lit ''</div>'')"

definition renderCardBody :: "ui \<Rightarrow> doc \<Rightarrow> error + jsstring option" where
  "renderCardBody st d =
     (case card_abstract st d of
        Inl e \<Rightarrow> Inl e
      | Inr a \<Rightarrow>
          Inr (map_option (\<lambda>abstract. card_body (card_people d) abstract (card_keywords st d))
                 a))"

definition renderCardBody_UI :: "ui \<Rightarrow> doc \<Rightarrow> jsstring option" where
  "renderCardBody_UI st d =
     map_option (\<lambda>abstract. card_body (card_people d) abstract (card_keywords st d))
       (card_abstract_UI st d)"

section \<open>The score\<close>

text \<open>
  \<open>doc.score * 100\<close> is a multiplication of doubles: the exact product, rounded to the
  nearest double, ties to the even significand. \<open>round_double\<close> is that rounding: a
  double other than zero is \<open>m * 2 ^ q\<close> with \<open>m < 2 ^ 53\<close> and \<open>q \<ge> -1074\<close>, and a
  result of \<open>2 ^ 1024\<close> or more is an infinity. \<open>binary_exponent a\<close> is the integer
  \<open>e\<close> with \<open>2 ^ e \<le> a < 2 ^ (e + 1)\<close>, for \<open>a > 0\<close>. The value a JSON number has
  after parsing is \<open>round_double\<close> of its decimal value.
\<close>

function ilog2 :: "nat \<Rightarrow> nat" where
  "ilog2 n = (if n < 2 then 0 else Suc (ilog2 (n div 2)))"
  by pat_completeness auto
termination
  by (relation "measure id") auto

declare ilog2.simps [simp del]

definition pow2 :: "int \<Rightarrow> rat" where
  "pow2 k = (if 0 \<le> k then 2 ^ nat k else 1 / 2 ^ nat (- k))"

definition binary_exponent :: "rat \<Rightarrow> int" where
  "binary_exponent a =
     (if 1 \<le> a then int (ilog2 (nat \<lfloor>a\<rfloor>))
      else let j = int (ilog2 (nat \<lfloor>1 / a\<rfloor>)) in
        if a * pow2 j = 1 then - j else - j - 1)"

definition round_half_even :: "rat \<Rightarrow> int" where
  "round_half_even x =
     (let f = \<lfloor>x\<rfloor>; r = x - of_int f in
      if r < 1 / 2 then f else if 1 / 2 < r then f + 1 else if even f then f else f + 1)"

definition round_double :: "rat \<Rightarrow> jsnum" where
  "round_double x =
     (if x = 0 then Fin 0
      else let a = \<bar>x\<bar>;
               q = max (binary_exponent a - 52) (- 1074);
               r = of_int (round_half_even (a / pow2 q)) * pow2 q
           in if 2 ^ 1024 \<le> r then (if 0 < x then PosInf else NegInf)
              else Fin (if 0 < x then r else - r))"

text \<open>The operator \<open>*\<close> on numbers.\<close>

fun js_times :: "jsnum \<Rightarrow> jsnum \<Rightarrow> jsnum" where
  "js_times (Fin a) (Fin b) = round_double (a * b)"
| "js_times NaN y = NaN"
| "js_times x NaN = NaN"
| "js_times (Fin a) PosInf = (if a = 0 then NaN else if 0 < a then PosInf else NegInf)"
| "js_times (Fin a) NegInf = (if a = 0 then NaN else if 0 < a then NegInf else PosInf)"
| "js_times PosInf (Fin b) = (if b = 0 then NaN else if 0 < b then PosInf else NegInf)"
| "js_times NegInf (Fin b) = (if b = 0 then NaN else if 0 < b then NegInf else PosInf)"
| "js_times PosInf PosInf = PosInf"
| "js_times PosInf NegInf = NegInf"
| "js_times NegInf PosInf = NegInf"
| "js_times NegInf NegInf = PosInf"

text \<open>
  \<open>x.toFixed(1)\<close>, after \<open>Number.prototype.toFixed\<close>: a value that is not finite
  prints as its name; the sign is split off; \<open>n\<close> is the integer for which
  \<open>n / 10 - x\<close> is closest to zero, the larger one of two; its decimal digits are padded
  with zeros to two at least, and the point goes before the last one. From \<open>10 ^ 21\<close> on
  the result is the exponential form of \<open>ToString\<close>, which is not modelled (\<open>None\<close>).
\<close>

definition digit :: "nat \<Rightarrow> jschar" where
  "digit d = of_nat (48 + d)"

function decimal :: "nat \<Rightarrow> jsstring" where
  "decimal n = (if n < 10 then [digit n] else decimal (n div 10) @ [digit (n mod 10)])"
  by pat_completeness auto
termination
  by (relation "measure id") auto

declare decimal.simps [simp del]

definition fixed1_digits :: "nat \<Rightarrow> jsstring" where
  "fixed1_digits n =
     (let m = decimal n;
          m = (if length m \<le> 1 then replicate (2 - length m) 0x30 @ m else m);
          k = length m
      in take (k - 1) m @ lit ''.'' @ drop (k - 1) m)"

definition toFixed1 :: "jsnum \<Rightarrow> jsstring option" where
  "toFixed1 x =
     (case x of
        NaN \<Rightarrow> Some (lit ''NaN'')
      | PosInf \<Rightarrow> Some (lit ''Infinity'')
      | NegInf \<Rightarrow> Some (lit ''-Infinity'')
      | Fin v \<Rightarrow>
          (let s = (if v < 0 then lit ''-'' else []);
               a = (if v < 0 then - v else v)
           in if 10 ^ 21 \<le> a then None
              else Some (s @ fixed1_digits (nat \<lfloor>a * 10 + 1 / 2\<rfloor>))))"

text \<open>
  The first line of \<open>renderCardHeader\<close> (line 277 of src/unnamed/part_000, 215 of
  src/UI/app.js), \<open>const score = (doc.score * 100).toFixed(1)\<close>, and the tag that shows it.
\<close>

definition score_percent :: "doc \<Rightarrow> jsstring option" where
  "score_percent d = toFixed1 (js_times (score d) (Fin 100))"

definition score_tag :: "doc \<Rightarrow> jsstring option" where
  "score_tag d =
     map_option (\<lambda>s. lit ''<span class=\"meta-tag tag-score\">'' @ s @ [0x066A] @ lit ''</span>'')
       (score_percent d)"

subsection \<open>Reading a decimal numeral\<close>

text \<open>
  The number a string of digits with a decimal point denotes: the digits before the point
  as an integer, plus the digits after it as a fraction.
\<close>

definition digit_value :: "jschar \<Rightarrow> nat" where
  "digit_value c = unat c - 48"

definition digits_value :: "jsstring \<Rightarrow> nat" where
  "digits_value ds = foldl (\<lambda>acc c. 10 * acc + digit_value c) 0 ds"

definition numeral_value :: "jsstring \<Rightarrow> rat" where
  "numeral_value s =
     (let whole = takeWhile (\<lambda>c. c \<noteq> 0x2E) s;
          frac = drop 1 (dropWhile (\<lambda>c. c \<noteq> 0x2E) s)
      in of_nat (digits_value whole) + of_nat (digits_value frac) / 10 ^ length frac)"

text \<open>The same with a sign: a leading \<open>-\<close> negates the value of the rest.\<close>

definition signed_numeral_value :: "jsstring \<Rightarrow> rat" where
  "signed_numeral_value s =
     (case s of
        [] \<Rightarrow> 0
      | c # cs \<Rightarrow> if c = 0x2D then - numeral_value cs else numeral_value (c # cs))"

subsection \<open>The keywords of the specification\<close>

text \<open>
  The keywords in the specification's words: \<open>keyword_text\<close> is cut at every newline
  into the pieces between them, each piece is trimmed, and the empty ones are dropped.
  \<open>pieces\<close> builds the pieces from the right, one character at a time.
\<close>

fun pieces :: "('a \<Rightarrow> bool) \<Rightarrow> 'a list \<Rightarrow> 'a list list" where
  "pieces P [] = [[]]"
| "pieces P (c # cs) =
     (if P c then [] # pieces P cs
      else case pieces P cs of [] \<Rightarrow> [[c]] | l # ls \<Rightarrow> (c # l) # ls)"

definition keyword_lines :: "jsstring \<Rightarrow> jsstring list" where
  "keyword_lines raw = filter (\<lambda>k. k \<noteq> []) (map trim (pieces (\<lambda>c. c = 0x0A) raw))"

subsection \<open>The tokeniser of the specification\<close>

text \<open>
  The terms of a string in the specification's words: the maximal runs of characters that
  are not white space, in their order; and a list with its duplicates removed, the first
  occurrence of each element staying where it is.
\<close>

function runs_of :: "('a \<Rightarrow> bool) \<Rightarrow> 'a list \<Rightarrow> 'a list list" where
  "runs_of P [] = []"
| "runs_of P (c # cs) =
     (if P c then runs_of P cs
      else (c # takeWhile (\<lambda>x. \<not> P x) cs) # runs_of P (dropWhile (\<lambda>x. \<not> P x) cs))"
  by pat_completeness auto
termination
  by (relation "measure (\<lambda>(P, s). length s)")
     (auto simp: le_imp_less_Suc length_dropWhile_le)

definition whitespace_terms :: "jsstring \<Rightarrow> jsstring list" where
  "whitespace_terms s = runs_of isWhiteSpace s"

definition first_occurrences :: "'a list \<Rightarrow> 'a list" where
  "first_occurrences xs = rev (remdups (rev xs))"

section \<open>Properties of the tokeniser\<close>

lemma new_Set_first_occurrences: "new_Set xs = first_occurrences xs"
proof (induction xs rule: rev_induct)
  case Nil
  show ?case by (simp add: new_Set_def first_occurrences_def)
next
  case (snoc x xs)
  then show ?case by (simp add: new_Set_def first_occurrences_def Set_add_def)
qed

lemma distinct_first_occurrences: "distinct (first_occurrences xs)"
  by (simp add: first_occurrences_def)

lemma set_first_occurrences: "set (first_occurrences xs) = set xs"
  by (simp add: first_occurrences_def)

lemma split_runs_nonempty:
  "filter (\<lambda>t. t \<noteq> []) (split_runs P cur s) =
     (if cur = [] then runs_of P s
      else (cur @ takeWhile (\<lambda>x. \<not> P x) s) # runs_of P (dropWhile (\<lambda>x. \<not> P x) s))"
proof (induction P cur s rule: split_runs.induct)
  case (1 P cur)
  show ?case by simp
next
  case (2 P cur c cs)
  have drop_runs: "runs_of P (dropWhile P cs) = runs_of P cs"
    by (induction cs) auto
  show ?case
  proof (cases "P c")
    case True
    with 2 show ?thesis by (simp add: drop_runs)
  next
    case False
    with 2 show ?thesis by simp
  qed
qed

lemma split_ws_terms: "filter (\<lambda>t. t \<noteq> []) (split_ws s) = whitespace_terms s"
  by (simp add: split_ws_def whitespace_terms_def split_runs_nonempty)

lemma filter_long_split_ws:
  "filter (\<lambda>t. 2 \<le> length t) (split_ws s) = filter (\<lambda>t. 2 \<le> length t) (whitespace_terms s)"
proof -
  have "filter (\<lambda>t. 2 \<le> length t) (filter (\<lambda>t. t \<noteq> []) (split_ws s)) =
        filter (\<lambda>t. 2 \<le> length t) (split_ws s)"
    by (auto simp: filter_filter intro: filter_cong)
  then show ?thesis by (simp add: split_ws_terms)
qed

lemma tokenise_string:
  "tokenise (JStr s) =
     Inr (first_occurrences (filter (\<lambda>t. 2 \<le> length t) (whitespace_terms s)))"
proof (cases "s = []")
  case True
  then show ?thesis
    by (simp add: tokenise_def whitespace_terms_def first_occurrences_def)
next
  case False
  then show ?thesis
    by (simp add: tokenise_def call_split_ws_def new_Set_first_occurrences filter_long_split_ws)
qed

lemma tokenise_UI_string:
  "tokenise_UI (JStr s) = Inr (filter (\<lambda>t. 2 \<le> length t) (whitespace_terms s))"
  by (simp add: tokenise_UI_def call_split_ws_def filter_long_split_ws)

lemma map_filter_is_token:
  "List.map_filter is_token (map JStr ts) = filter (\<lambda>t. 2 \<le> length t) ts"
  by (induction ts) (simp_all add: List.map_filter_simps is_token_def)

lemma tokenise_array_of_strings:
  "tokenise (toArray ts) = Inr (filter (\<lambda>t. 2 \<le> length t) ts)"
  by (simp add: tokenise_def toArray_def map_filter_is_token)

lemma tokenise_returns: "\<exists>ts. tokenise v = Inr ts"
  by (cases v) (simp_all add: tokenise_def call_split_ws_def)

lemma map_filter_is_token_long:
  "t \<in> set (List.map_filter is_token xs) \<Longrightarrow> 2 \<le> length t"
  by (induction xs)
     (auto simp: List.map_filter_simps is_token_def split: jsval.splits if_splits)

lemma tokenise_long: "tokenise v = Inr ts \<Longrightarrow> t \<in> set ts \<Longrightarrow> 2 \<le> length t"
proof (cases v)
  case (JStr s)
  assume "tokenise v = Inr ts" and "t \<in> set ts"
  with JStr show ?thesis
    by (auto simp: tokenise_string set_first_occurrences)
next
  case (JArr xs)
  assume "tokenise v = Inr ts" and "t \<in> set ts"
  with JArr show ?thesis
    by (auto simp: tokenise_def dest: map_filter_is_token_long)
qed (auto simp: tokenise_def split: if_splits)

subsection \<open>Claims about the tokeniser\<close>

text \<open>
  C3 (amended). For every string \<open>s\<close>, \<open>tokenise\<close> of the variant with the expand/OR
  toggles (src/unnamed/part_000) returns the white-space-separated terms of \<open>s\<close> with
  the terms shorter than 2 discarded and duplicates removed, the first occurrence kept;
  every token it returns has length at least 2 and none occurs twice. \<open>tokenise\<close> of
  src/UI/app.js returns the same terms of length at least 2 but keeps the duplicates.
\<close>

theorem tokenise_terms_filtered_deduplicated:
  "(\<exists>ts. tokenise (JStr s) = Inr ts \<and>
      ts = first_occurrences (filter (\<lambda>t. 2 \<le> length t) (whitespace_terms s)) \<and>
      (\<forall>t\<in>set ts. 2 \<le> length t) \<and> distinct ts) \<and>
   (\<exists>us. tokenise_UI (JStr s) = Inr us \<and>
      us = filter (\<lambda>t. 2 \<le> length t) (whitespace_terms s) \<and>
      (\<forall>t\<in>set us. 2 \<le> length t))"
proof -
  let ?long = "filter (\<lambda>t. 2 \<le> length t) (whitespace_terms s)"
  have long: "\<forall>t\<in>set ?long. 2 \<le> length t"
    by simp
  have "tokenise (JStr s) = Inr (first_occurrences ?long)"
    by (rule tokenise_string)
  moreover have "\<forall>t\<in>set (first_occurrences ?long). 2 \<le> length t"
    unfolding set_first_occurrences by (rule long)
  moreover have "distinct (first_occurrences ?long)"
    by (rule distinct_first_occurrences)
  moreover have "tokenise_UI (JStr s) = Inr ?long"
    by (rule tokenise_UI_string)
  ultimately show ?thesis
    using long by blast
qed

theorem tokenise_terms_filtered_deduplicated_witness:
  "first_occurrences (filter (\<lambda>t. 2 \<le> length t) (whitespace_terms (lit '' ab  c ab de ''))) =
     [lit ''ab'', lit ''de''] \<and>
   tokenise (JStr (lit '' ab  c ab de '')) = Inr [lit ''ab'', lit ''de''] \<and>
   filter (\<lambda>t. 2 \<le> length t) (whitespace_terms (lit '' ab  c ab de '')) =
     [lit ''ab'', lit ''ab'', lit ''de''] \<and>
   tokenise_UI (JStr (lit '' ab  c ab de '')) = Inr [lit ''ab'', lit ''ab'', lit ''de''] \<and>
   lit ''ab'' \<in> set [lit ''ab'', lit ''de''] \<and> 2 \<le> length (lit ''ab'')"
proof -
  have t: "tokenise (JStr (lit '' ab  c ab de '')) = Inr [lit ''ab'', lit ''de'']"
    by (simp add: tokenise_def call_split_ws_def new_Set_def Set_add_def split_ws_def
        lit_def isWhiteSpace_def)
  have u: "tokenise_UI (JStr (lit '' ab  c ab de '')) = Inr [lit ''ab'', lit ''ab'', lit ''de'']"
    by (simp add: tokenise_UI_def call_split_ws_def split_ws_def lit_def isWhiteSpace_def)
  have l: "2 \<le> length (lit ''ab'')"
    by (simp add: lit_def)
  from tokenise_terms_filtered_deduplicated [of "lit '' ab  c ab de ''"]
  have "tokenise (JStr (lit '' ab  c ab de '')) =
          Inr (first_occurrences (filter (\<lambda>t. 2 \<le> length t)
            (whitespace_terms (lit '' ab  c ab de ''))))"
    and "tokenise_UI (JStr (lit '' ab  c ab de '')) =
          Inr (filter (\<lambda>t. 2 \<le> length t) (whitespace_terms (lit '' ab  c ab de '')))"
    by blast+
  with t u have
    "first_occurrences (filter (\<lambda>t. 2 \<le> length t) (whitespace_terms (lit '' ab  c ab de ''))) =
       [lit ''ab'', lit ''de'']"
    and "filter (\<lambda>t. 2 \<le> length t) (whitespace_terms (lit '' ab  c ab de '')) =
       [lit ''ab'', lit ''ab'', lit ''de'']"
    by simp_all
  with t u l show ?thesis
    by simp
qed

theorem tokenise_UI_keeps_duplicates:
  "tokenise_UI (JStr (lit ''ab ab'')) = Inr [lit ''ab'', lit ''ab''] \<and>
   \<not> distinct [lit ''ab'', lit ''ab'']"
  by (simp add: tokenise_UI_def call_split_ws_def split_ws_def lit_def isWhiteSpace_def)

text \<open>
  C4 (amended). In the variant with the expand/OR toggles (src/unnamed/part_000),
  tokenising the tokens of any string gives the same tokens again, and an array of strings
  is filtered to its entries of length at least 2 and passed through, no entry split again.
  \<open>tokenise\<close> of src/UI/app.js accepts a string only: given an array, its own result
  included, it raises a \<open>TypeError\<close>.
\<close>

theorem tokenise_idempotent:
  "(\<exists>ts. tokenise (JStr s) = Inr ts \<and> tokenise (toArray ts) = Inr ts) \<and>
   tokenise (toArray xs) = Inr (filter (\<lambda>t. 2 \<le> length t) xs) \<and>
   tokenise_UI (toArray xs) = Inl TypeError"
proof -
  obtain ts where ts: "tokenise (JStr s) = Inr ts"
    using tokenise_returns by blast
  have "filter (\<lambda>t. 2 \<le> length t) ts = ts"
    using tokenise_long [OF ts] by (simp add: filter_id_conv)
  then have "tokenise (toArray ts) = Inr ts"
    by (simp add: tokenise_array_of_strings)
  moreover have "tokenise_UI (toArray xs) = Inl TypeError"
    by (simp add: tokenise_UI_def call_split_ws_def toArray_def)
  ultimately show ?thesis
    using ts by (simp add: tokenise_array_of_strings)
qed

theorem tokenise_UI_rejects_token_list:
  "tokenise_UI (JStr (lit ''ab cd'')) = Inr [lit ''ab'', lit ''cd''] \<and>
   tokenise_UI (toArray [lit ''ab'', lit ''cd'']) = Inl TypeError"
  by (simp add: tokenise_UI_def call_split_ws_def split_ws_def toArray_def lit_def
      isWhiteSpace_def)

text \<open>
  C5 (amended). In the variant with the expand/OR toggles (src/unnamed/part_000),
  \<open>tokenise\<close> raises on no argument, and returns the empty list for every argument that
  is null, undefined, empty (the empty string, the empty array) or neither a string nor an
  array. \<open>tokenise\<close> of src/UI/app.js returns for strings only (the empty string gives the
  empty list) and raises a \<open>TypeError\<close> on every other argument, null included.
\<close>

theorem tokenise_never_raises:
  "(\<exists>ts. tokenise v = Inr ts) \<and>
   (v = JNull \<or> v = JUndefined \<or> v = JStr [] \<or> v = JArr [] \<or>
      (\<forall>s. v \<noteq> JStr s) \<and> (\<forall>xs. v \<noteq> JArr xs) \<longrightarrow> tokenise v = Inr []) \<and>
   tokenise_UI (JStr []) = Inr [] \<and>
   ((\<forall>s. v \<noteq> JStr s) \<longrightarrow> tokenise_UI v = Inl TypeError)"
proof -
  have "tokenise_UI (JStr []) = Inr []"
    by (simp add: tokenise_UI_def call_split_ws_def split_ws_def)
  moreover have "(\<forall>s. v \<noteq> JStr s) \<longrightarrow> tokenise_UI v = Inl TypeError"
    by (cases v) (simp_all add: tokenise_UI_def call_split_ws_def)
  moreover have "v = JNull \<or> v = JUndefined \<or> v = JStr [] \<or> v = JArr [] \<or>
      (\<forall>s. v \<noteq> JStr s) \<and> (\<forall>xs. v \<noteq> JArr xs) \<longrightarrow> tokenise v = Inr []"
    by (cases v) (auto simp: tokenise_def List.map_filter_simps)
  ultimately show ?thesis
    using tokenise_returns [of v] by blast
qed

theorem tokenise_never_raises_witness:
  "(\<exists>ts. tokenise JNull = Inr ts) \<and> tokenise JNull = Inr [] \<and>
   tokenise (JNum (Fin 7)) = Inr [] \<and> tokenise_UI JNull = Inl TypeError"
  using tokenise_never_raises [of JNull] tokenise_never_raises [of "JNum (Fin 7)"]
  by simp

theorem tokenise_UI_raises_on_null:
  "tokenise_UI JNull = Inl TypeError"
  by (simp add: tokenise_UI_def call_split_ws_def)

section \<open>Properties of the highlighter\<close>

lemma escape_class_is_syntax: "in_escape_class c \<longleftrightarrow> isSyntaxCharacter c"
  unfolding in_escape_class_def isSyntaxCharacter_def by blast

lemma parse_pattern_character:
  "\<not> isSyntaxCharacter c \<Longrightarrow>
     parse_alternatives cur (c # rest) = parse_alternatives (cur @ [c]) rest"
  by (auto simp: isSyntaxCharacter_def)

lemma parse_identity_escape:
  "isSyntaxCharacter c \<Longrightarrow>
     parse_alternatives cur (0x5C # c # rest) = parse_alternatives (cur @ [c]) rest"
  by simp

lemma parse_escape_token:
  "parse_alternatives cur (escape_token t @ rest) = parse_alternatives (cur @ t) rest"
proof (induction t arbitrary: cur)
  case Nil
  show ?case by (simp add: escape_token_def)
next
  case (Cons c t)
  have step: "escape_token (c # t) =
      (if isSyntaxCharacter c then [0x5C, c] else [c]) @ escape_token t"
    by (simp add: escape_token_def escape_class_is_syntax)
  show ?case
  proof (cases "isSyntaxCharacter c")
    case True
    have e: "escape_token (c # t) @ rest = 0x5C # c # (escape_token t @ rest)"
      using True by (simp add: step)
    show ?thesis
      unfolding e parse_identity_escape [OF True]
      using Cons.IH [of "cur @ [c]"] by simp
  next
    case False
    have e: "escape_token (c # t) @ rest = c # (escape_token t @ rest)"
      using False by (simp add: step)
    show ?thesis
      unfolding e parse_pattern_character [OF False]
      using Cons.IH [of "cur @ [c]"] by simp
  qed
qed

lemma parse_joined_tokens:
  "tokens \<noteq> [] \<Longrightarrow>
     parse_alternatives [] (join [0x7C] (map escape_token tokens) @ [0x29]) = Some tokens"
proof (induction tokens rule: induct_list012)
  case 1
  then show ?case by simp
next
  case (2 t)
  show ?case
    using parse_escape_token [of "[]" t "[0x29]"] by simp
next
  case (3 t u us)
  have "parse_alternatives [] (escape_token t @ 0x7C # join [0x7C] (map escape_token (u # us)) @ [0x29])
        = parse_alternatives t (0x7C # join [0x7C] (map escape_token (u # us)) @ [0x29])"
    using parse_escape_token [of "[]" t] by simp
  also have "\<dots> = map_option ((#) t)
        (parse_alternatives [] (join [0x7C] (map escape_token (u # us)) @ [0x29]))"
    by simp
  also have "\<dots> = Some (t # u # us)"
    using 3 by simp
  finally show ?case by simp
qed

lemma RegExp_new_pattern_source:
  "tokens \<noteq> [] \<Longrightarrow> RegExp_new (pattern_source tokens) = Some (Literals tokens)"
  using parse_joined_tokens [of tokens]
  by (simp add: RegExp_new_def pattern_source_def lit_def)


lemma unescaped_metacharacter_breaks_pattern:
  "RegExp_new (lit ''('' @ join (lit ''|'') [lit ''a(b''] @ lit '')'') = None \<and>
   RegExp_new (lit ''('' @ join (lit ''|'') [lit ''a|b''] @ lit '')'') =
     Some (Literals [lit ''a'', lit ''b''])"
  by (simp add: RegExp_new_def lit_def isSyntaxCharacter_def)

lemma match_here_literal:
  "match_here (Literals tokens) s = Some m \<Longrightarrow> m \<in> set tokens \<and> prefix m s"
  by (auto simp: find_Some_iff)

lemma highlight_literal:
  "highlight str tokens =
     Some (if str = [] \<or> tokens = [] then escHtml str
           else replace_marked (Literals tokens) (escHtml str))"
  by (simp add: highlight_def RegExp_new_pattern_source)

text \<open>
  C1. The class of characters \<open>highlight\<close> escapes is the set of syntax characters of the
  pattern grammar. For every non-empty token list the pattern source is accepted by the
  constructor, and the expression it builds is the disjunction of the tokens as literal
  strings: whatever it matches is one of the tokens, character for character. So
  \<open>highlight\<close> returns for every text and token list, and marks literal occurrences of
  the tokens in the escaped text.
\<close>

theorem highlight_escapes_metacharacters:
  "(in_escape_class c \<longleftrightarrow> isSyntaxCharacter c) \<and>
   (tokens \<noteq> [] \<longrightarrow> RegExp_new (pattern_source tokens) = Some (Literals tokens)) \<and>
   (\<forall>s m. match_here (Literals tokens) s = Some m \<longrightarrow> m \<in> set tokens \<and> prefix m s) \<and>
   highlight str tokens =
     Some (if str = [] \<or> tokens = [] then escHtml str
           else replace_marked (Literals tokens) (escHtml str))"
  using escape_class_is_syntax [of c] RegExp_new_pattern_source [of tokens]
    match_here_literal [of tokens] highlight_literal [of str tokens]
  by blast

theorem highlight_escapes_metacharacters_witness:
  "[lit ''a.b'', lit ''(x|y)''] \<noteq> [] \<and>
   RegExp_new (pattern_source [lit ''a.b'', lit ''(x|y)'']) =
     Some (Literals [lit ''a.b'', lit ''(x|y)'']) \<and>
   match_here (Literals [lit ''a.b'', lit ''(x|y)'']) (lit ''(x|y) axb'') = Some (lit ''(x|y)'') \<and>
   lit ''(x|y)'' \<in> set [lit ''a.b'', lit ''(x|y)''] \<and>
   highlight (lit ''(x|y) axb a.b'') [lit ''a.b'', lit ''(x|y)''] =
     Some (lit ''<mark class=\"hl\">(x|y)</mark> axb <mark class=\"hl\">a.b</mark>'')"
proof -
  have m: "match_here (Literals [lit ''a.b'', lit ''(x|y)'']) (lit ''(x|y) axb'') =
      Some (lit ''(x|y)'')"
    by (simp add: lit_def)
  have r: "replace_marked (Literals [lit ''a.b'', lit ''(x|y)'']) (escHtml (lit ''(x|y) axb a.b'')) =
      lit ''<mark class=\"hl\">(x|y)</mark> axb <mark class=\"hl\">a.b</mark>''"
    by (simp add: escHtml_def replace_char_def mark_def lit_def)
  have n: "lit ''(x|y) axb a.b'' \<noteq> []"
    by (simp add: lit_def)
  have k: "[lit ''a.b'', lit ''(x|y)''] \<noteq> []"
    by simp
  note claim = highlight_escapes_metacharacters
      [where tokens = "[lit ''a.b'', lit ''(x|y)'']" and str = "lit ''(x|y) axb a.b''"]
  from claim k have p: "RegExp_new (pattern_source [lit ''a.b'', lit ''(x|y)'']) =
      Some (Literals [lit ''a.b'', lit ''(x|y)''])"
    by blast
  from claim have h: "highlight (lit ''(x|y) axb a.b'') [lit ''a.b'', lit ''(x|y)''] =
      Some (if lit ''(x|y) axb a.b'' = [] \<or> [lit ''a.b'', lit ''(x|y)''] = []
            then escHtml (lit ''(x|y) axb a.b'')
            else replace_marked (Literals [lit ''a.b'', lit ''(x|y)''])
                   (escHtml (lit ''(x|y) axb a.b'')))"
    by blast
  have "highlight (lit ''(x|y) axb a.b'') [lit ''a.b'', lit ''(x|y)''] =
      Some (lit ''<mark class=\"hl\">(x|y)</mark> axb <mark class=\"hl\">a.b</mark>'')"
    unfolding h using n r by simp
  with k p m show ?thesis
    by simp
qed

subsection \<open>Markers inside escape entities\<close>

lemma replace_char_append:
  "replace_char c r (a @ b) = replace_char c r a @ replace_char c r b"
  by (simp add: replace_char_def)

lemma escHtml_append: "escHtml (a @ b) = escHtml a @ escHtml b"
  by (simp add: escHtml_def replace_char_append)

lemma escHtml_less_than: "escHtml (0x3C # b) = lit ''&lt;'' @ escHtml b"
proof -
  have "escHtml [0x3C] = lit ''&lt;''"
    by (simp add: escHtml_def replace_char_def lit_def)
  then show ?thesis
    using escHtml_append [of "[0x3C]" b] by simp
qed

lemma replace_lt_Nil: "replace_marked (Literals [[0x6C, 0x74]]) [] = []"
  by simp

lemma replace_lt_match:
  "replace_marked (Literals [[0x6C, 0x74]]) (0x6C # 0x74 # s) =
     mark [0x6C, 0x74] @ replace_marked (Literals [[0x6C, 0x74]]) s"
  by simp

lemma replace_lt_copy:
  "\<not> prefix [0x6C, 0x74] (c # s) \<Longrightarrow>
     replace_marked (Literals [[0x6C, 0x74]]) (c # s) =
       c # replace_marked (Literals [[0x6C, 0x74]]) s"
  by auto

lemma replace_lt_before_ampersand:
  "replace_marked (Literals [[0x6C, 0x74]]) (a @ 0x26 # r) =
     replace_marked (Literals [[0x6C, 0x74]]) a @ replace_marked (Literals [[0x6C, 0x74]]) (0x26 # r)"
proof (induction a rule: induct_list012)
  case 1
  show ?case by simp
next
  case (2 x)
  show ?case by simp
next
  case (3 x y zs)
  show ?case
  proof (cases "x = 0x6C \<and> y = 0x74")
    case True
    then show ?thesis using 3 by simp
  next
    case False
    then have n1: "\<not> prefix [0x6C, 0x74] (x # y # zs)"
      and n2: "\<not> prefix [0x6C, 0x74] (x # y # zs @ 0x26 # r)"
      by auto
    have ih: "replace_marked (Literals [[0x6C, 0x74]]) (y # zs @ 0x26 # r) =
        replace_marked (Literals [[0x6C, 0x74]]) (y # zs) @
        replace_marked (Literals [[0x6C, 0x74]]) (0x26 # r)"
      using 3(2) by (simp only: append_Cons)
    show ?thesis
      by (simp only: append_Cons replace_lt_copy [OF n1] replace_lt_copy [OF n2] ih)
  qed
qed


lemma replace_lt_entity:
  "replace_marked (Literals [[0x6C, 0x74]]) (0x26 # 0x6C # 0x74 # 0x3B # r) =
     0x26 # mark [0x6C, 0x74] @ 0x3B # replace_marked (Literals [[0x6C, 0x74]]) r"
  by simp

lemma mark_first: "\<exists>r. mark m = 0x3C # r"
  by (simp add: mark_def lit_def)

lemma replace_lt_first:
  "prefix [x] (replace_marked (Literals [[0x6C, 0x74]]) s) \<Longrightarrow> x = 0x3C \<or> prefix [x] s"
proof (cases s)
  case Nil
  assume "prefix [x] (replace_marked (Literals [[0x6C, 0x74]]) s)"
  with Nil show ?thesis by simp
next
  case (Cons c cs)
  assume p: "prefix [x] (replace_marked (Literals [[0x6C, 0x74]]) s)"
  show ?thesis
  proof (cases "prefix [0x6C, 0x74] (c # cs)")
    case True
    then obtain cs' where "c # cs = 0x6C # 0x74 # cs'"
      by (auto simp: prefix_def)
    then have "replace_marked (Literals [[0x6C, 0x74]]) s =
        mark [0x6C, 0x74] @ replace_marked (Literals [[0x6C, 0x74]]) cs'"
      unfolding Cons by (simp only: replace_lt_match)
    with p mark_first [of "[0x6C, 0x74]"] show ?thesis
      by auto
  next
    case False
    have "replace_marked (Literals [[0x6C, 0x74]]) (c # cs) =
        c # replace_marked (Literals [[0x6C, 0x74]]) cs"
      by (rule replace_lt_copy [OF False])
    with p Cons have "x = c"
      by (simp only: prefix_Cons) simp
    with Cons show ?thesis
      by simp
  qed
qed

lemma replace_lt_no_lt_prefix:
  "\<not> prefix [0x6C, 0x74] (replace_marked (Literals [[0x6C, 0x74]]) s)"
proof (cases s)
  case Nil
  then show ?thesis by simp
next
  case (Cons c cs)
  show ?thesis
  proof (cases "prefix [0x6C, 0x74] (c # cs)")
    case True
    then obtain cs' where "c # cs = 0x6C # 0x74 # cs'"
      by (auto simp: prefix_def)
    then have "replace_marked (Literals [[0x6C, 0x74]]) s =
        mark [0x6C, 0x74] @ replace_marked (Literals [[0x6C, 0x74]]) cs'"
      unfolding Cons by (simp only: replace_lt_match)
    with mark_first [of "[0x6C, 0x74]"] show ?thesis
      by auto
  next
    case False
    have r: "replace_marked (Literals [[0x6C, 0x74]]) s =
        c # replace_marked (Literals [[0x6C, 0x74]]) cs"
      unfolding Cons by (rule replace_lt_copy [OF False])
    show ?thesis
    proof
      assume "prefix [0x6C, 0x74] (replace_marked (Literals [[0x6C, 0x74]]) s)"
      then have c: "c = 0x6C"
        and "prefix [0x74] (replace_marked (Literals [[0x6C, 0x74]]) cs)"
        unfolding r by simp_all
      then have "prefix [0x74] cs"
        using replace_lt_first [where x = "0x74" and s = cs] by simp
      with c False show False
        by simp
    qed
  qed
qed

lemma mark_no_entity:
  "\<not> sublist [0x26, 0x6C, 0x74] r \<Longrightarrow> \<not> sublist [0x26, 0x6C, 0x74] (mark [0x6C, 0x74] @ r)"
  by (simp add: mark_def lit_def sublist_Cons_right)

lemma replace_lt_no_entity:
  "\<not> sublist [0x26, 0x6C, 0x74] (replace_marked (Literals [[0x6C, 0x74]]) s)"
proof (induction s rule: induct_list012)
  case 1
  show ?case by simp
next
  case (2 x)
  show ?case by (simp add: sublist_Cons_right)
next
  case (3 x y zs)
  show ?case
  proof (cases "x = 0x6C \<and> y = 0x74")
    case True
    then have x: "x = 0x6C" and y: "y = 0x74"
      by simp_all
    show ?thesis
      unfolding x y replace_lt_match by (rule mark_no_entity [OF 3(1)])
  next
    case False
    then have n: "\<not> prefix [0x6C, 0x74] (x # y # zs)"
      by auto
    show ?thesis
      unfolding replace_lt_copy [OF n] sublist_Cons_right [of _ x]
      using 3(2) replace_lt_no_lt_prefix [of "y # zs"] by simp
  qed
qed

lemma sublist_longer: "sublist (xs @ ys) zs \<Longrightarrow> sublist xs zs"
  unfolding sublist_def by (metis append.assoc)

lemma highlight_lt_output:
  assumes "0x3C \<in> set str"
  shows "\<exists>a b. str = a @ 0x3C # b \<and>
     highlight str [lit ''lt''] =
       Some (replace_marked (Literals [[0x6C, 0x74]]) (escHtml a) @
             lit ''&<mark class=\"hl\">lt</mark>;'' @
             replace_marked (Literals [[0x6C, 0x74]]) (escHtml b))"
proof -
  from assms obtain a b where s: "str = a @ 0x3C # b"
    by (auto simp: in_set_conv_decomp)
  have l: "lit ''lt'' = [0x6C, 0x74]"
    by (simp add: lit_def)
  have e: "escHtml str = escHtml a @ 0x26 # 0x6C # 0x74 # 0x3B # escHtml b"
    unfolding s by (simp add: escHtml_append escHtml_less_than lit_def)
  have m: "lit ''&<mark class=\"hl\">lt</mark>;'' = 0x26 # mark [0x6C, 0x74] @ [0x3B]"
    by (simp add: mark_def lit_def)
  have "highlight str [lit ''lt''] =
      Some (replace_marked (Literals [[0x6C, 0x74]]) (escHtml str))"
    using s by (simp add: highlight_literal l)
  also have "replace_marked (Literals [[0x6C, 0x74]]) (escHtml str) =
      replace_marked (Literals [[0x6C, 0x74]]) (escHtml a) @
      (0x26 # mark [0x6C, 0x74] @ 0x3B # replace_marked (Literals [[0x6C, 0x74]]) (escHtml b))"
    unfolding e by (simp only: replace_lt_before_ampersand replace_lt_entity)
  finally show ?thesis
    using s unfolding m by auto
qed

text \<open>
  C9. The tokens are matched against the escaped text, so a marker can land inside an
  entity the escaping produced. For every text that contains \<open><\<close>, highlighted with
  the one token \<open>lt\<close>: the escaped text contains \<open>&lt;\<close>, and the output contains
  \<open>&\<close>, the marked \<open>lt\<close> and \<open>;\<close> in its place, and nowhere an intact
  \<open>&lt;\<close>.
\<close>

theorem highlight_marks_inside_entity:
  assumes "0x3C \<in> set str"
  shows "\<exists>out pre suf. highlight str [lit ''lt''] = Some out \<and>
     sublist (lit ''&lt;'') (escHtml str) \<and>
     out = pre @ lit ''&<mark class=\"hl\">lt</mark>;'' @ suf \<and>
     \<not> sublist (lit ''&lt;'') out"
proof -
  from highlight_lt_output [OF assms] obtain a b where s: "str = a @ 0x3C # b"
    and h: "highlight str [lit ''lt''] =
       Some (replace_marked (Literals [[0x6C, 0x74]]) (escHtml a) @
             lit ''&<mark class=\"hl\">lt</mark>;'' @
             replace_marked (Literals [[0x6C, 0x74]]) (escHtml b))"
    by blast
  have "escHtml str = escHtml a @ lit ''&lt;'' @ escHtml b"
    unfolding s by (simp add: escHtml_append escHtml_less_than)
  then have intact: "sublist (lit ''&lt;'') (escHtml str)"
    by simp
  have "highlight str [lit ''lt''] =
      Some (replace_marked (Literals [[0x6C, 0x74]]) (escHtml str))"
    using s by (simp add: highlight_literal lit_def)
  with h have o: "replace_marked (Literals [[0x6C, 0x74]]) (escHtml a) @
             lit ''&<mark class=\"hl\">lt</mark>;'' @
             replace_marked (Literals [[0x6C, 0x74]]) (escHtml b) =
             replace_marked (Literals [[0x6C, 0x74]]) (escHtml str)"
    by simp
  have "lit ''&lt;'' = [0x26, 0x6C, 0x74] @ [0x3B]"
    by (simp add: lit_def)
  then have "\<not> sublist (lit ''&lt;'') (replace_marked (Literals [[0x6C, 0x74]]) (escHtml str))"
    using replace_lt_no_entity [of "escHtml str"] sublist_longer by metis
  with h intact show ?thesis
    unfolding o [symmetric] by blast
qed


theorem highlight_marks_inside_entity_witness:
  "0x3C \<in> set (lit ''a<b'') \<and>
   escHtml (lit ''a<b'') = lit ''a&lt;b'' \<and>
   highlight (lit ''a<b'') [lit ''lt''] = Some (lit ''a&<mark class=\"hl\">lt</mark>;b'') \<and>
   \<not> sublist (lit ''&lt;'') (lit ''a&<mark class=\"hl\">lt</mark>;b'')"
proof -
  have i: "0x3C \<in> set (lit ''a<b'')"
    by (simp add: lit_def)
  have e: "escHtml (lit ''a<b'') = lit ''a&lt;b''"
    by (simp add: escHtml_def replace_char_def lit_def)
  have h: "highlight (lit ''a<b'') [lit ''lt''] = Some (lit ''a&<mark class=\"hl\">lt</mark>;b'')"
    by (simp add: highlight_def pattern_source_def escape_token_def in_escape_class_def
        RegExp_new_def isSyntaxCharacter_def escHtml_def replace_char_def mark_def lit_def)
  from highlight_marks_inside_entity [OF i] obtain out
    where "highlight (lit ''a<b'') [lit ''lt''] = Some out"
      and "\<not> sublist (lit ''&lt;'') out"
    by blast
  with h have "\<not> sublist (lit ''&lt;'') (lit ''a&<mark class=\"hl\">lt</mark>;b'')"
    by simp
  with i e h show ?thesis
    by blast
qed

section \<open>Properties of the expanded-query box\<close>

lemma Set_has_new_Set: "Set_has (new_Set xs) t \<longleftrightarrow> t \<in> set xs"
  by (simp add: Set_has_def new_Set_first_occurrences set_first_occurrences)

lemma hasNewTerm_iff:
  "list_ex (\<lambda>t. \<not> Set_has (new_Set Q) t) (new_Set E) \<longleftrightarrow> (\<exists>t\<in>set E. t \<notin> set Q)"
  by (simp add: list_ex_iff Set_has_def new_Set_first_occurrences set_first_occurrences)

lemma renderExpandedQuery_falsy:
  "\<not> truthy expanded \<Longrightarrow>
     renderExpandedQuery original expanded st = Inr (st\<lparr>expandedBox_visible := False\<rparr>)"
  by (simp add: renderExpandedQuery_def)

lemma renderExpandedQuery_truthy:
  assumes "truthy expanded" and "tokenise (JStr original) = Inr Q" and "tokenise expanded = Inr E"
  shows "renderExpandedQuery original expanded st =
     Inr (if \<exists>t\<in>set E. t \<notin> set Q
          then st\<lparr>expandedTerms := concat (map (exp_term (new_Set Q)) E),
                  expandedBox_visible := True\<rparr>
          else st\<lparr>expandedBox_visible := False\<rparr>)"
  using assms by (simp add: renderExpandedQuery_def Let_def hasNewTerm_iff)

lemma tokenise_falsy: "\<not> truthy v \<Longrightarrow> tokenise v = Inr []"
  by (simp add: tokenise_def)

lemma renderExpandedQuery_UI_string:
  "renderExpandedQuery_UI original (JStr x) st =
     Inr (if x = [] \<or> x = original then st\<lparr>expandedBox_visible := False\<rparr>
          else st\<lparr>expandedTerms :=
                    concat (map (exp_term (new_Set (filter (\<lambda>t. 2 \<le> length t) (split_ws original))))
                      (filter (\<lambda>t. 2 \<le> length t) (split_ws x))),
                  expandedBox_visible := True\<rparr>)"
  by (simp add: renderExpandedQuery_UI_def tokenise_UI_def call_split_ws_def)

text \<open>
  C2 (amended). In the variant with the expand/OR toggles (src/unnamed/part_000), for
  every original query and every expanded value, the box is visible afterwards if and only
  if some token of the expanded value is absent from the tokens of the original; a falsy
  expanded value hides the box and writes no chip; so an expansion that brings no new term
  is not shown. In src/UI/app.js the box is hidden exactly when the expanded string is
  empty or equal to the original string, and shown otherwise.
\<close>

theorem renderExpandedQuery_visible_iff_new_term:
  assumes "tokenise (JStr original) = Inr Q" and "tokenise expanded = Inr E"
  shows "(\<exists>st'. renderExpandedQuery original expanded st = Inr st' \<and>
            (expandedBox_visible st' \<longleftrightarrow> (\<exists>t\<in>set E. t \<notin> set Q)) \<and>
            (\<not> truthy expanded \<longrightarrow>
               \<not> expandedBox_visible st' \<and> expandedTerms st' = expandedTerms st)) \<and>
         (\<exists>st'. renderExpandedQuery_UI original (JStr x) st = Inr st' \<and>
            (expandedBox_visible st' \<longleftrightarrow> x \<noteq> [] \<and> x \<noteq> original))"
proof -
  have ui: "\<exists>st'. renderExpandedQuery_UI original (JStr x) st = Inr st' \<and>
            (expandedBox_visible st' \<longleftrightarrow> x \<noteq> [] \<and> x \<noteq> original)"
    by (simp add: renderExpandedQuery_UI_string)
  show ?thesis
  proof (cases "truthy expanded")
    case True
    show ?thesis
      using ui True by (simp add: renderExpandedQuery_truthy [OF True assms])
  next
    case False
    with assms(2) have "E = []"
      by (simp add: tokenise_falsy)
    then show ?thesis
      using ui False by (simp add: renderExpandedQuery_falsy)
  qed
qed


theorem renderExpandedQuery_visible_iff_new_term_witness:
  "tokenise (JStr (lit ''ab cd'')) = Inr [lit ''ab'', lit ''cd''] \<and>
   tokenise (JStr (lit ''ab cd ef'')) = Inr [lit ''ab'', lit ''cd'', lit ''ef''] \<and>
   lit ''ef'' \<in> set [lit ''ab'', lit ''cd'', lit ''ef''] \<and>
   lit ''ef'' \<notin> set [lit ''ab'', lit ''cd''] \<and>
   renderExpandedQuery (lit ''ab cd'') (JStr (lit ''ab cd ef'')) initial_ui =
     Inr \<lparr>queryTokens = [], expandedOnlyTokens = None, expandedBox_visible = True,
          expandedTerms = lit ''<span class=\"exp-term original\">ab</span><span class=\"exp-term original\">cd</span><span class=\"exp-term added\">ef</span>''\<rparr> \<and>
   renderExpandedQuery (lit ''ab cd'') JNull initial_ui =
     Inr \<lparr>queryTokens = [], expandedOnlyTokens = None, expandedBox_visible = False,
          expandedTerms = []\<rparr>"
proof -
  have q: "tokenise (JStr (lit ''ab cd'')) = Inr [lit ''ab'', lit ''cd'']"
    by (simp add: tokenise_def call_split_ws_def new_Set_def Set_add_def split_ws_def
        lit_def isWhiteSpace_def)
  have e: "tokenise (JStr (lit ''ab cd ef'')) = Inr [lit ''ab'', lit ''cd'', lit ''ef'']"
    by (simp add: tokenise_def call_split_ws_def new_Set_def Set_add_def split_ws_def
        lit_def isWhiteSpace_def)
  have n: "tokenise JNull = Inr []"
    by (simp add: tokenise_def)
  have new: "lit ''ef'' \<in> set [lit ''ab'', lit ''cd'', lit ''ef'']"
    "lit ''ef'' \<notin> set [lit ''ab'', lit ''cd'']"
    by (simp_all add: lit_def)
  have r: "renderExpandedQuery (lit ''ab cd'') (JStr (lit ''ab cd ef'')) initial_ui =
     Inr \<lparr>queryTokens = [], expandedOnlyTokens = None, expandedBox_visible = True,
          expandedTerms = lit ''<span class=\"exp-term original\">ab</span><span class=\"exp-term original\">cd</span><span class=\"exp-term added\">ef</span>''\<rparr>"
    unfolding renderExpandedQuery_def q e
    by (simp add: lit_def initial_ui_def new_Set_def Set_add_def exp_term_def Set_has_def
        escHtml_def replace_char_def)
  from renderExpandedQuery_visible_iff_new_term [OF q n, of initial_ui "[]"]
  obtain st' where "renderExpandedQuery (lit ''ab cd'') JNull initial_ui = Inr st'"
    and "\<not> expandedBox_visible st'" and "expandedTerms st' = expandedTerms initial_ui"
    by auto
  moreover have "renderExpandedQuery (lit ''ab cd'') JNull initial_ui =
      Inr (initial_ui\<lparr>expandedBox_visible := False\<rparr>)"
    by (simp add: renderExpandedQuery_def)
  ultimately have f: "renderExpandedQuery (lit ''ab cd'') JNull initial_ui =
     Inr \<lparr>queryTokens = [], expandedOnlyTokens = None, expandedBox_visible = False,
          expandedTerms = []\<rparr>"
    by (simp add: initial_ui_def)
  from renderExpandedQuery_visible_iff_new_term [OF q e, of initial_ui "[]"] new
  obtain st'' where "renderExpandedQuery (lit ''ab cd'') (JStr (lit ''ab cd ef'')) initial_ui = Inr st''"
    and "expandedBox_visible st''"
    by blast
  from q e new r f show ?thesis
    by blast
qed

theorem renderExpandedQuery_UI_shows_echo:
  "tokenise_UI (JStr (lit ''ab cd'')) = Inr [lit ''ab'', lit ''cd''] \<and>
   tokenise_UI (JStr (lit ''cd ab'')) = Inr [lit ''cd'', lit ''ab''] \<and>
   renderExpandedQuery_UI (lit ''ab cd'') (JStr (lit ''cd ab'')) initial_ui =
     Inr \<lparr>queryTokens = [], expandedOnlyTokens = None, expandedBox_visible = True,
          expandedTerms = lit ''<span class=\"exp-term original\">cd</span><span class=\"exp-term original\">ab</span>''\<rparr>"
  by (simp add: renderExpandedQuery_UI_def tokenise_UI_def call_split_ws_def split_ws_def
      isWhiteSpace_def lit_def initial_ui_def new_Set_def Set_add_def exp_term_def Set_has_def
      escHtml_def replace_char_def)

section \<open>Properties of the keyword chips\<close>

lemma str_includes_sublist: "str_includes k t \<longleftrightarrow> sublist t k"
  by (induction k) (simp_all add: sublist_Cons_right)

lemma isMatch_iff: "isMatch tokens k \<longleftrightarrow> (\<exists>t\<in>set tokens. sublist t k \<or> sublist k t)"
  by (simp add: isMatch_def list_ex_iff str_includes_sublist)

lemma pieces_nonempty: "pieces P s \<noteq> []"
  by (induction s) (simp_all split: list.splits)

lemma split_chars_pieces:
  "split_chars P cur s = (cur @ hd (pieces P s)) # tl (pieces P s)"
proof (induction s arbitrary: cur)
  case Nil
  show ?case by simp
next
  case (Cons c s)
  show ?case
  proof (cases "P c")
    case True
    with Cons [of "[]"] show ?thesis
      using pieces_nonempty [of P s] by simp
  next
    case False
    with Cons [of "cur @ [c]"] show ?thesis
      using pieces_nonempty [of P s] by (simp split: list.splits)
  qed
qed

lemma split_chars_eq_pieces: "split_chars P [] s = pieces P s"
  using pieces_nonempty [of P s] by (simp add: split_chars_pieces)

lemma keywords_of_lines: "keywords_of raw = keyword_lines raw"
  by (simp add: keywords_of_def keyword_lines_def split_chars_eq_pieces)

lemma pieces_subset: "p \<in> set (pieces P s) \<Longrightarrow> set p \<subseteq> set s"
proof (induction s arbitrary: p)
  case Nil
  then show ?case by simp
next
  case (Cons c s)
  show ?case
  proof (cases "P c")
    case True
    with Cons show ?thesis by auto
  next
    case False
    obtain l ls where l: "pieces P s = l # ls"
      using pieces_nonempty [of P s] by (cases "pieces P s") auto
    with False Cons.prems have "p = c # l \<or> p \<in> set ls"
      by simp
    then show ?thesis
    proof
      assume "p = c # l"
      moreover have "set l \<subseteq> set s"
        using Cons.IH [of l] l by simp
      ultimately show ?thesis by auto
    next
      assume "p \<in> set ls"
      then have "set p \<subseteq> set s"
        using Cons.IH [of p] l by simp
      then show ?thesis by auto
    qed
  qed
qed

lemma trim_blank:
  assumes "\<forall>c\<in>set s. isWhiteSpace c"
  shows "trim s = []"
proof -
  from assms have d: "dropWhile isWhiteSpace s = []"
    by simp
  show ?thesis
    unfolding trim_def d by simp
qed

lemma blank_of_trim:
  assumes "trim s = []"
  shows "\<forall>c\<in>set s. isWhiteSpace c"
proof -
  from assms have all: "\<forall>c\<in>set (dropWhile isWhiteSpace s). isWhiteSpace c"
    by (simp add: trim_def)
  have "dropWhile isWhiteSpace s = []"
  proof (cases "dropWhile isWhiteSpace s")
    case Nil
    then show ?thesis .
  next
    case (Cons x xs)
    then have "\<not> isWhiteSpace x"
      using hd_dropWhile [of isWhiteSpace s] by simp
    moreover have "isWhiteSpace x"
      using all Cons by simp
    ultimately show ?thesis by simp
  qed
  then show ?thesis
    by simp
qed

lemma keyword_lines_blank:
  assumes "trim raw = []"
  shows "keyword_lines raw = []"
proof -
  have "trim p = []" if "p \<in> set (pieces (\<lambda>c. c = 0x0A) raw)" for p
  proof -
    have "set p \<subseteq> set raw"
      using that by (rule pieces_subset)
    then have "\<forall>c\<in>set p. isWhiteSpace c"
      using blank_of_trim [OF assms] by blast
    then show ?thesis
      by (rule trim_blank)
  qed
  then show ?thesis
    by (simp add: keyword_lines_def filter_empty_conv)
qed

lemma buildKeywords_lines:
  "buildKeywords st raw =
     (if keyword_lines raw = [] then []
      else lit ''<div class=\"card-keywords-wrap\">'' @
           lit ''<div class=\"keywords-label\">'' @ keywords_label @ lit ''</div>'' @
           lit ''<div class=\"keywords-list\">'' @
           concat (map (keyword_chip (queryTokens st)) (keyword_lines raw)) @
           lit ''</div></div>'')"
proof (cases "raw = [] \<or> trim raw = []")
  case True
  then have "trim raw = []"
    by (auto simp: trim_def)
  then have "keyword_lines raw = []"
    by (rule keyword_lines_blank)
  with True show ?thesis
    by (simp add: buildKeywords_def)
next
  case False
  then show ?thesis
    by (simp add: buildKeywords_def Let_def keywords_of_lines)
qed

text \<open>
  C8. For every keyword and every token list, the flag \<open>isMatch\<close> is true if and only
  if some token occurs in the keyword as a contiguous substring or the keyword occurs in
  that token. The keywords \<open>buildKeywords\<close> draws are the pieces of \<open>keyword_text\<close>
  between newlines, trimmed, the empty ones dropped; it returns nothing when none is left,
  and otherwise one chip for each keyword, in order, which carries the match class exactly
  when the keyword and some token of \<open>_queryTokens\<close> contain one another.
\<close>

theorem keyword_isMatch_containment:
  "(isMatch tokens k \<longleftrightarrow> (\<exists>t\<in>set tokens. sublist t k \<or> sublist k t)) \<and>
   keyword_chip tokens k =
     lit ''<span class=\"'' @
     (if \<exists>t\<in>set tokens. sublist t k \<or> sublist k t
      then lit ''keyword-chip keyword-chip--match'' else lit ''keyword-chip'') @
     lit ''\">'' @ escHtml k @ lit ''</span>'' \<and>
   keyword_flags st d =
     map (\<lambda>k. (k, \<exists>t\<in>set (queryTokens st). sublist t k \<or> sublist k t))
       (keywords_of (keyword_text d)) \<and>
   keywords_of raw = keyword_lines raw \<and>
   buildKeywords st raw =
     (if keyword_lines raw = [] then []
      else lit ''<div class=\"card-keywords-wrap\">'' @
           lit ''<div class=\"keywords-label\">'' @ keywords_label @ lit ''</div>'' @
           lit ''<div class=\"keywords-list\">'' @
           concat (map (\<lambda>k. lit ''<span class=\"'' @
                      (if \<exists>t\<in>set (queryTokens st). sublist t k \<or> sublist k t
                       then lit ''keyword-chip keyword-chip--match'' else lit ''keyword-chip'') @
                      lit ''\">'' @ escHtml k @ lit ''</span>'')
                    (keyword_lines raw)) @
           lit ''</div></div>'') \<and>
   card_keywords st d = buildKeywords st (keyword_text d)"
proof -
  have chip: "keyword_chip ts k' =
     lit ''<span class=\"'' @
     (if \<exists>t\<in>set ts. sublist t k' \<or> sublist k' t
      then lit ''keyword-chip keyword-chip--match'' else lit ''keyword-chip'') @
     lit ''\">'' @ escHtml k' @ lit ''</span>''" for ts k'
    by (simp add: keyword_chip_def isMatch_iff)
  have flags: "keyword_flags st d =
     map (\<lambda>k. (k, \<exists>t\<in>set (queryTokens st). sublist t k \<or> sublist k t))
       (keywords_of (keyword_text d))"
    by (simp add: keyword_flags_def isMatch_iff)
  have build: "buildKeywords st raw =
     (if keyword_lines raw = [] then []
      else lit ''<div class=\"card-keywords-wrap\">'' @
           lit ''<div class=\"keywords-label\">'' @ keywords_label @ lit ''</div>'' @
           lit ''<div class=\"keywords-list\">'' @
           concat (map (\<lambda>k. lit ''<span class=\"'' @
                      (if \<exists>t\<in>set (queryTokens st). sublist t k \<or> sublist k t
                       then lit ''keyword-chip keyword-chip--match'' else lit ''keyword-chip'') @
                      lit ''\">'' @ escHtml k @ lit ''</span>'')
                    (keyword_lines raw)) @
           lit ''</div></div>'')"
    unfolding buildKeywords_lines chip ..
  show ?thesis
    using isMatch_iff [of tokens k] chip [of tokens k] flags keywords_of_lines [of raw] build
    by (simp only: card_keywords_def simp_thms)
qed

theorem keyword_isMatch_containment_witness:
  "isMatch [[0x634, 0x628, 0x6A9, 0x647], lit ''networks'']
     [0x634, 0x628, 0x6A9, 0x647, 0x20, 0x639, 0x635, 0x628, 0x6CC] \<and>
   sublist [0x634, 0x628, 0x6A9, 0x647]
     [0x634, 0x628, 0x6A9, 0x647, 0x20, 0x639, 0x635, 0x628, 0x6CC] \<and>
   isMatch [[0x634, 0x628, 0x6A9, 0x647], lit ''networks''] (lit ''net'') \<and>
   sublist (lit ''net'') (lit ''networks'') \<and>
   \<not> isMatch [[0x634, 0x628, 0x6A9, 0x647], lit ''networks''] (lit ''deep learning'') \<and>
   \<not> (\<exists>t\<in>set [[0x634, 0x628, 0x6A9, 0x647], lit ''networks''].
        sublist t (lit ''deep learning'') \<or> sublist (lit ''deep learning'') t) \<and>
   keyword_lines (lit ''net'' @ [0x0A, 0x20, 0x0A] @ lit '' deep learning '') =
     [lit ''net'', lit ''deep learning''] \<and>
   buildKeywords
     \<lparr>queryTokens = [[0x634, 0x628, 0x6A9, 0x647], lit ''networks''],
      expandedOnlyTokens = None, expandedBox_visible = False, expandedTerms = []\<rparr>
     (lit ''net'' @ [0x0A, 0x20, 0x0A] @ lit '' deep learning '') =
     lit ''<div class=\"card-keywords-wrap\"><div class=\"keywords-label\">'' @ keywords_label @
     lit ''</div><div class=\"keywords-list\"><span class=\"keyword-chip keyword-chip--match\">net</span><span class=\"keyword-chip\">deep learning</span></div></div>''"
proof -
  let ?st = "\<lparr>queryTokens = [[0x634, 0x628, 0x6A9, 0x647], lit ''networks''],
      expandedOnlyTokens = None, expandedBox_visible = False, expandedTerms = []\<rparr>"
  let ?raw = "lit ''net'' @ [0x0A, 0x20, 0x0A] @ lit '' deep learning ''"
  have a: "isMatch [[0x634, 0x628, 0x6A9, 0x647], lit ''networks'']
     [0x634, 0x628, 0x6A9, 0x647, 0x20, 0x639, 0x635, 0x628, 0x6CC]"
    by (simp add: isMatch_def lit_def)
  have b: "isMatch [[0x634, 0x628, 0x6A9, 0x647], lit ''networks''] (lit ''net'')"
    by (simp add: isMatch_def lit_def)
  have c: "\<not> isMatch [[0x634, 0x628, 0x6A9, 0x647], lit ''networks''] (lit ''deep learning'')"
    by (simp add: isMatch_def lit_def)
  have d: "sublist [0x634, 0x628, 0x6A9, 0x647]
     [0x634, 0x628, 0x6A9, 0x647, 0x20, 0x639, 0x635, 0x628, 0x6CC]"
    by (simp add: sublist_Cons_right)
  have e: "sublist (lit ''net'') (lit ''networks'')"
    by (simp add: lit_def sublist_Cons_right)
  have kw: "keywords_of ?raw = [lit ''net'', lit ''deep learning'']"
    by (simp add: keywords_of_def trim_def isWhiteSpace_def lit_def)
  have bk: "buildKeywords ?st ?raw =
     lit ''<div class=\"card-keywords-wrap\"><div class=\"keywords-label\">'' @ keywords_label @
     lit ''</div><div class=\"keywords-list\"><span class=\"keyword-chip keyword-chip--match\">net</span><span class=\"keyword-chip\">deep learning</span></div></div>''"
    by (simp add: buildKeywords_def keywords_of_def keyword_chip_def isMatch_def trim_def
        isWhiteSpace_def escHtml_def replace_char_def lit_def)
  note claim = keyword_isMatch_containment
      [where tokens = "[[0x634, 0x628, 0x6A9, 0x647], lit ''networks'']"
         and k = "lit ''deep learning''" and raw = ?raw]
  from c claim
  have n: "\<not> (\<exists>t\<in>set [[0x634, 0x628, 0x6A9, 0x647], lit ''networks''].
        sublist t (lit ''deep learning'') \<or> sublist (lit ''deep learning'') t)"
    by blast
  from claim have "keywords_of ?raw = keyword_lines ?raw"
    by blast
  with kw have l: "keyword_lines ?raw = [lit ''net'', lit ''deep learning'']"
    by simp
  from a b c d e n l bk show ?thesis
    by blast
qed

section \<open>Properties of the search\<close>

lemma renderExpandedQuery_keeps_tokens:
  "\<exists>st'. renderExpandedQuery original expanded st = Inr st' \<and>
     queryTokens st' = queryTokens st \<and> expandedOnlyTokens st' = expandedOnlyTokens st"
proof -
  obtain Q where q: "tokenise (JStr original) = Inr Q"
    using tokenise_returns by blast
  obtain E where e: "tokenise expanded = Inr E"
    using tokenise_returns by blast
  show ?thesis
    by (simp add: renderExpandedQuery_def q e Let_def)
qed

lemma runSearch_tokens:
  assumes "trim input \<noteq> []"
    and "tokenise (JStr (trim input)) = Inr Q" and "tokenise (expanded_query data) = Inr E"
  shows "\<exists>st'. runSearch input (Responded data) st = Inr st' \<and>
     queryTokens st' = Q \<and> expandedOnlyTokens st' = Some E"
proof -
  let ?st1 = "st\<lparr>queryTokens := Q, expandedBox_visible := False\<rparr>"
  obtain st2 where r: "renderExpandedQuery (trim input) (expanded_query data) ?st1 = Inr st2"
    and t: "queryTokens st2 = queryTokens ?st1"
    using renderExpandedQuery_keeps_tokens by blast
  have f: "\<not> truthy (expanded_query data) \<Longrightarrow> E = []"
    using assms(3) by (simp add: tokenise_def)
  show ?thesis
    using assms t f by (auto simp: runSearch_def Let_def r)
qed

lemma renderCardBody_before_first_search:
  "abs_text d \<noteq> [] \<Longrightarrow> renderCardBody initial_ui d = Inl ReferenceError"
  by (simp add: renderCardBody_def card_abstract_def initial_ui_def)

lemma buildKeywords_reads_queryTokens:
  "queryTokens st1 = queryTokens st2 \<Longrightarrow> buildKeywords st1 raw = buildKeywords st2 raw"
  by (simp add: buildKeywords_def Let_def)

lemma trim_ab_cd: "trim (lit ''ab cd'') = lit ''ab cd''"
  by (simp add: trim_def lit_def isWhiteSpace_def)

lemma runSearch_with_expansion:
  "runSearch (lit ''ab cd'')
     (Responded \<lparr>expanded_query = JStr (lit ''ab cd ef''), results = []\<rparr>) initial_ui =
   Inr \<lparr>queryTokens = [lit ''ab'', lit ''cd''],
        expandedOnlyTokens = Some [lit ''ab'', lit ''cd'', lit ''ef''],
        expandedBox_visible = True,
        expandedTerms = lit ''<span class=\"exp-term original\">ab</span><span class=\"exp-term original\">cd</span><span class=\"exp-term added\">ef</span>''\<rparr>"
  by (simp add: runSearch_def renderExpandedQuery_def tokenise_def call_split_ws_def
      split_ws_def trim_def isWhiteSpace_def Let_def lit_def initial_ui_def new_Set_def
      Set_add_def exp_term_def Set_has_def escHtml_def replace_char_def)

lemma runSearch_without_expansion:
  "runSearch (lit ''ab cd'') (Responded \<lparr>expanded_query = JNull, results = []\<rparr>) initial_ui =
   Inr \<lparr>queryTokens = [lit ''ab'', lit ''cd''], expandedOnlyTokens = Some [],
        expandedBox_visible = False, expandedTerms = []\<rparr>"
  by (simp add: runSearch_def renderExpandedQuery_def tokenise_def call_split_ws_def
      split_ws_def trim_def isWhiteSpace_def Let_def lit_def initial_ui_def new_Set_def
      Set_add_def)

lemma runSearch_UI_keywords_follow_expansion:
  "runSearch_UI (lit ''ab cd'')
     (Responded \<lparr>expanded_query = JStr (lit ''ab cd ef''), results = []\<rparr>) initial_ui =
   Inr \<lparr>queryTokens = [lit ''ab'', lit ''cd'', lit ''ef''], expandedOnlyTokens = None,
        expandedBox_visible = True,
        expandedTerms = lit ''<span class=\"exp-term original\">ab</span><span class=\"exp-term original\">cd</span><span class=\"exp-term added\">ef</span>''\<rparr> \<and>
   isMatch [lit ''ab'', lit ''cd'', lit ''ef''] (lit ''ef'') \<and>
   \<not> isMatch [lit ''ab'', lit ''cd''] (lit ''ef'')"
  by (simp add: runSearch_UI_def renderExpandedQuery_UI_def tokenise_UI_def call_split_ws_def
      split_ws_def trim_def isWhiteSpace_def Let_def lit_def initial_ui_def new_Set_def
      Set_add_def exp_term_def Set_has_def escHtml_def replace_char_def isMatch_def)

text \<open>
  C10. In the variant with the expand/OR toggles (src/unnamed/part_000), two searches for
  the same input from the same page state, whose responses differ only in
  \<open>expanded_query\<close>, both return, leave \<open>_queryTokens\<close> at the tokens of the trimmed
  input, and so give every keyword of every document the same \<open>isMatch\<close> flag and the
  same chips; the tokens of the expanded query go to \<open>_expandedOnlyTokens\<close>, which
  highlights the abstract.
\<close>

theorem keyword_flags_ignore_expansion:
  assumes "trim input \<noteq> []"
  shows "\<exists>st1 st2 Q.
     runSearch input (Responded (data\<lparr>expanded_query := ea\<rparr>)) st = Inr st1 \<and>
     runSearch input (Responded (data\<lparr>expanded_query := eb\<rparr>)) st = Inr st2 \<and>
     tokenise (JStr (trim input)) = Inr Q \<and>
     queryTokens st1 = Q \<and> queryTokens st2 = Q \<and>
     (\<exists>Ea. tokenise ea = Inr Ea \<and> expandedOnlyTokens st1 = Some Ea \<and>
        card_abstract st1 d = Inr (card_abstract_with Ea d)) \<and>
     (\<exists>Eb. tokenise eb = Inr Eb \<and> expandedOnlyTokens st2 = Some Eb \<and>
        card_abstract st2 d = Inr (card_abstract_with Eb d)) \<and>
     keyword_flags st1 d = keyword_flags st2 d \<and>
     card_keywords st1 d = card_keywords st2 d"
proof -
  obtain Q where q: "tokenise (JStr (trim input)) = Inr Q"
    using tokenise_returns by blast
  obtain Ea where ea: "tokenise (expanded_query (data\<lparr>expanded_query := ea\<rparr>)) = Inr Ea"
    using tokenise_returns by blast
  obtain Eb where eb: "tokenise (expanded_query (data\<lparr>expanded_query := eb\<rparr>)) = Inr Eb"
    using tokenise_returns by blast
  from runSearch_tokens [OF assms q ea] obtain st1
    where r1: "runSearch input (Responded (data\<lparr>expanded_query := ea\<rparr>)) st = Inr st1"
      and t1: "queryTokens st1 = Q" "expandedOnlyTokens st1 = Some Ea"
    by blast
  from runSearch_tokens [OF assms q eb] obtain st2
    where r2: "runSearch input (Responded (data\<lparr>expanded_query := eb\<rparr>)) st = Inr st2"
      and t2: "queryTokens st2 = Q" "expandedOnlyTokens st2 = Some Eb"
    by blast
  have "keyword_flags st1 d = keyword_flags st2 d"
    by (simp add: keyword_flags_def t1 t2)
  moreover have "card_keywords st1 d = card_keywords st2 d"
    unfolding card_keywords_def
    by (rule buildKeywords_reads_queryTokens) (simp add: t1 t2)
  moreover have "card_abstract st1 d = Inr (card_abstract_with Ea d)"
    "card_abstract st2 d = Inr (card_abstract_with Eb d)"
    by (simp_all add: card_abstract_def card_abstract_with_def t1 t2)
  ultimately show ?thesis
    using r1 r2 q t1 t2 ea eb by simp
qed

theorem keyword_flags_ignore_expansion_witness:
  "trim (lit ''ab cd'') \<noteq> [] \<and>
   keyword_flags
     \<lparr>queryTokens = [lit ''ab'', lit ''cd''],
      expandedOnlyTokens = Some [lit ''ab'', lit ''cd'', lit ''ef''],
      expandedBox_visible = True,
      expandedTerms = lit ''<span class=\"exp-term original\">ab</span><span class=\"exp-term original\">cd</span><span class=\"exp-term added\">ef</span>''\<rparr>
     \<lparr>title = [], abs_text = [], authors = [], advisors = [], co_advisors = [],
      keyword_text = lit ''abc'' @ [0x0A] @ lit ''ef'', score = Fin 0\<rparr> =
   keyword_flags
     \<lparr>queryTokens = [lit ''ab'', lit ''cd''], expandedOnlyTokens = Some [],
      expandedBox_visible = False, expandedTerms = []\<rparr>
     \<lparr>title = [], abs_text = [], authors = [], advisors = [], co_advisors = [],
      keyword_text = lit ''abc'' @ [0x0A] @ lit ''ef'', score = Fin 0\<rparr> \<and>
   keyword_flags
     \<lparr>queryTokens = [lit ''ab'', lit ''cd''], expandedOnlyTokens = Some [],
      expandedBox_visible = False, expandedTerms = []\<rparr>
     \<lparr>title = [], abs_text = [], authors = [], advisors = [], co_advisors = [],
      keyword_text = lit ''abc'' @ [0x0A] @ lit ''ef'', score = Fin 0\<rparr> =
   [(lit ''abc'', True), (lit ''ef'', False)]"
proof -
  have n: "trim (lit ''ab cd'') \<noteq> []"
    by (simp add: trim_ab_cd) (simp add: lit_def)
  have f: "keyword_flags
     \<lparr>queryTokens = [lit ''ab'', lit ''cd''], expandedOnlyTokens = Some [],
      expandedBox_visible = False, expandedTerms = []\<rparr>
     \<lparr>title = [], abs_text = [], authors = [], advisors = [], co_advisors = [],
      keyword_text = lit ''abc'' @ [0x0A] @ lit ''ef'', score = Fin 0\<rparr> =
     [(lit ''abc'', True), (lit ''ef'', False)]"
    by (simp add: keyword_flags_def keywords_of_def trim_def isWhiteSpace_def isMatch_def lit_def)
  from keyword_flags_ignore_expansion [OF n,
      where data = "\<lparr>expanded_query = JNull, results = []\<rparr>"
        and ea = "JStr (lit ''ab cd ef'')" and st = initial_ui and eb = JNull
        and d = "\<lparr>title = [], abs_text = [], authors = [], advisors = [], co_advisors = [],
      keyword_text = lit ''abc'' @ [0x0A] @ lit ''ef'', score = Fin 0\<rparr>"]
  obtain st1 st2 where
    "runSearch (lit ''ab cd'')
       (Responded \<lparr>expanded_query = JStr (lit ''ab cd ef''), results = []\<rparr>) initial_ui = Inr st1"
    "runSearch (lit ''ab cd'') (Responded \<lparr>expanded_query = JNull, results = []\<rparr>) initial_ui
       = Inr st2"
    "keyword_flags st1 \<lparr>title = [], abs_text = [], authors = [], advisors = [], co_advisors = [],
      keyword_text = lit ''abc'' @ [0x0A] @ lit ''ef'', score = Fin 0\<rparr> =
     keyword_flags st2 \<lparr>title = [], abs_text = [], authors = [], advisors = [], co_advisors = [],
      keyword_text = lit ''abc'' @ [0x0A] @ lit ''ef'', score = Fin 0\<rparr>"
    by auto
  then have "keyword_flags
     \<lparr>queryTokens = [lit ''ab'', lit ''cd''],
      expandedOnlyTokens = Some [lit ''ab'', lit ''cd'', lit ''ef''],
      expandedBox_visible = True,
      expandedTerms = lit ''<span class=\"exp-term original\">ab</span><span class=\"exp-term original\">cd</span><span class=\"exp-term added\">ef</span>''\<rparr>
     \<lparr>title = [], abs_text = [], authors = [], advisors = [], co_advisors = [],
      keyword_text = lit ''abc'' @ [0x0A] @ lit ''ef'', score = Fin 0\<rparr> =
   keyword_flags
     \<lparr>queryTokens = [lit ''ab'', lit ''cd''], expandedOnlyTokens = Some [],
      expandedBox_visible = False, expandedTerms = []\<rparr>
     \<lparr>title = [], abs_text = [], authors = [], advisors = [], co_advisors = [],
      keyword_text = lit ''abc'' @ [0x0A] @ lit ''ef'', score = Fin 0\<rparr>"
    unfolding runSearch_with_expansion runSearch_without_expansion by simp
  with n f show ?thesis
    by blast
qed

section \<open>Properties of the person rows\<close>

lemma buildPersonRow_omitted_iff_blank:
  "buildPersonRow icon label v = [] \<longleftrightarrow> v = [] \<or> trim v = []"
  by (simp add: buildPersonRow_def Let_def lit_def)

lemma person_names_examples:
  "person_names ([0x639, 0x644, 0x6CC, 0x20, 0x631, 0x636, 0x627, 0x6CC, 0x6CC, 0x60C, 0x20,
                  0x62D, 0x633, 0x646, 0x20, 0x645, 0x62D, 0x645, 0x62F, 0x6CC]) =
     [[0x639, 0x644, 0x6CC, 0x20, 0x631, 0x636, 0x627, 0x6CC, 0x6CC],
      [0x62D, 0x633, 0x646, 0x20, 0x645, 0x62D, 0x645, 0x62F, 0x6CC]]"
  "person_names (lit ''Ann Lee ; ; Bob/ Cy,'') = [lit ''Ann Lee'', lit ''Bob'', lit ''Cy'']"
  "person_names (lit '' Ann Lee '') = [lit ''Ann Lee'']"
  by (simp_all add: person_names_def trim_def isNameSeparator_def isWhiteSpace_def lit_def)

lemma buildPersonRow_examples:
  "buildPersonRow icon label (lit ''Ann Lee; Bob'') =
     lit ''<div class=\"person-row\"><span class=\"person-icon\">'' @ icon @
     lit ''</span><span class=\"person-label\">'' @ label @
     lit '':</span><div class=\"person-name-list\"><span class=\"person-name-chip\">Ann Lee</span><span class=\"person-name-chip\">Bob</span></div></div>''"
  "buildPersonRow icon label (lit '' Ann Lee '') =
     lit ''<div class=\"person-row\"><span class=\"person-icon\">'' @ icon @
     lit ''</span><span class=\"person-label\">'' @ label @
     lit '':</span><span class=\"person-name\">Ann Lee</span></div>''"
  "buildPersonRow icon label (lit ''  '') = []"
  by (simp_all add: buildPersonRow_def person_names_def trim_def isNameSeparator_def
      isWhiteSpace_def escHtml_def replace_char_def lit_def)

text \<open>
  C6. A person field that holds separators only, here a single comma, is not blank, so the
  guard of \<open>buildPersonRow\<close> lets it pass; splitting leaves no name, and the function
  still returns a row, with an empty plain name in it.
\<close>

theorem buildPersonRow_separator_only:
  "trim (lit '','') = lit '','' \<and>
   person_names (lit '','') = [] \<and>
   buildPersonRow icon label (lit '','') =
     lit ''<div class=\"person-row\"><span class=\"person-icon\">'' @ icon @
     lit ''</span><span class=\"person-label\">'' @ label @
     lit '':</span><span class=\"person-name\"></span></div>''"
  by (simp add: buildPersonRow_def person_names_def trim_def isNameSeparator_def
      isWhiteSpace_def escHtml_def replace_char_def lit_def)

section \<open>Properties of the score\<close>

lemma floor_rat_numeral:
  "\<lfloor>numeral a / numeral b :: rat\<rfloor> = numeral a div numeral b"
  using floor_divide_of_int_eq [of "numeral a" "numeral b", where ?'a = rat] by simp

lemma ilog2_small: "n < 2 \<Longrightarrow> ilog2 n = 0"
  by (simp add: ilog2.simps)

lemma ilog2_large: "2 \<le> n \<Longrightarrow> ilog2 n = Suc (ilog2 (n div 2))"
  by (subst ilog2.simps) simp

lemma decimal_small: "n < 10 \<Longrightarrow> decimal n = [digit n]"
  by (simp add: decimal.simps)

lemma decimal_large: "10 \<le> n \<Longrightarrow> decimal n = decimal (n div 10) @ [digit (n mod 10)]"
  by (subst decimal.simps) simp

lemma unat_digit: "d < 10 \<Longrightarrow> unat (digit d) = 48 + d"
  by (simp only: digit_def unat_of_nat) simp

lemma digit_value_digit: "d < 10 \<Longrightarrow> digit_value (digit d) = d"
  by (simp add: digit_value_def unat_digit)

lemma digit_not_point: "d < 10 \<Longrightarrow> digit d \<noteq> 0x2E"
proof
  assume "d < 10" and "digit d = 0x2E"
  then have "unat (0x2E :: jschar) = 48 + d"
    using unat_digit [of d] by simp
  then show False by simp
qed

lemma decimal_no_point: "c \<in> set (decimal n) \<Longrightarrow> c \<noteq> 0x2E"
proof (induction n arbitrary: c rule: decimal.induct)
  case (1 n)
  show ?case
  proof (cases "n < 10")
    case True
    with 1(2) show ?thesis
      by (simp add: decimal_small digit_not_point)
  next
    case False
    then have "decimal n = decimal (n div 10) @ [digit (n mod 10)]"
      by (simp add: decimal_large)
    with 1 False show ?thesis
      by (auto simp: digit_not_point)
  qed
qed

lemma digits_value_snoc: "digits_value (ds @ [c]) = 10 * digits_value ds + digit_value c"
  by (simp add: digits_value_def)

lemma digits_value_decimal: "digits_value (decimal n) = n"
proof (induction n rule: decimal.induct)
  case (1 n)
  show ?case
  proof (cases "n < 10")
    case True
    then show ?thesis
      by (simp add: decimal_small digits_value_def digit_value_digit)
  next
    case False
    then have "decimal n = decimal (n div 10) @ [digit (n mod 10)]"
      by (simp add: decimal_large)
    with 1 False show ?thesis
      by (simp add: digits_value_snoc digit_value_digit)
  qed
qed

lemma decimal_nonempty: "decimal n \<noteq> []"
  by (subst decimal.simps) simp

lemma fixed1_digits_eq:
  "fixed1_digits n = (if n < 10 then [0x30] else decimal (n div 10)) @ [0x2E, digit (n mod 10)]"
proof (cases "n < 10")
  case True
  then show ?thesis
    by (simp add: fixed1_digits_def decimal_small lit_def)
next
  case False
  then have d: "decimal n = decimal (n div 10) @ [digit (n mod 10)]"
    by (simp add: decimal_large)
  show ?thesis
    using False by (simp add: fixed1_digits_def d lit_def Let_def decimal_nonempty)
qed

lemma numeral_value_fixed1: "numeral_value (fixed1_digits n) = of_nat n / 10"
proof -
  let ?w = "if n < 10 then [0x30] else decimal (n div 10)"
  have np: "\<forall>c\<in>set ?w. c \<noteq> 0x2E"
    by (auto dest: decimal_no_point)
  have w: "digits_value ?w = n div 10"
    by (simp add: digits_value_decimal) (simp add: digits_value_def digit_value_def)
  have tw: "takeWhile (\<lambda>c. c \<noteq> 0x2E) (?w @ [0x2E, digit (n mod 10)]) = ?w"
    using np by (simp add: takeWhile_append2)
  have dw: "dropWhile (\<lambda>c. c \<noteq> 0x2E) (?w @ [0x2E, digit (n mod 10)]) = [0x2E, digit (n mod 10)]"
    using np by (simp add: dropWhile_append2)
  have "numeral_value (fixed1_digits n) =
      of_nat (n div 10) + of_nat (n mod 10) / 10"
    unfolding fixed1_digits_eq numeral_value_def tw dw Let_def w
    by (simp add: digits_value_def digit_value_digit)
  also have "\<dots> = (10 * of_nat (n div 10) + of_nat (n mod 10)) / 10"
    by (simp add: add_divide_distrib)
  also have "10 * of_nat (n div 10) + of_nat (n mod 10) = (of_nat (10 * (n div 10) + n mod 10) :: rat)"
    by (simp only: of_nat_add of_nat_mult of_nat_numeral)
  finally show ?thesis
    by simp
qed


lemma ilog2_power: "0 < n \<Longrightarrow> 2 ^ ilog2 n \<le> n"
proof (induction n rule: ilog2.induct)
  case (1 n)
  show ?case
  proof (cases "n < 2")
    case True
    with 1(2) show ?thesis
      by (simp add: ilog2_small)
  next
    case False
    then have "0 < n div 2"
      by simp
    with 1(1) False have "2 ^ ilog2 (n div 2) \<le> n div 2"
      by simp
    then have "2 * 2 ^ ilog2 (n div 2) \<le> 2 * (n div 2)"
      by simp
    also have "\<dots> \<le> n"
      by simp
    finally show ?thesis
      using False by (simp add: ilog2_large)
  qed
qed

lemma ilog2_le_6: "n \<le> 100 \<Longrightarrow> ilog2 n \<le> 6"
proof (cases "n = 0")
  case True
  then show ?thesis
    by (simp add: ilog2_small)
next
  case False
  assume "n \<le> 100"
  with False ilog2_power [of n] have "(2::nat) ^ ilog2 n < 2 ^ 7"
    by simp
  then have "ilog2 n < 7"
    by (rule power_less_imp_less_exp [rotated]) simp
  then show ?thesis
    by simp
qed

lemma binary_exponent_le_6:
  assumes "0 < a" and "a \<le> 100"
  shows "binary_exponent a \<le> 6"
proof (cases "1 \<le> a")
  case True
  have "nat \<lfloor>a\<rfloor> \<le> 100"
    using assms by (simp add: floor_le_iff nat_le_iff)
  then show ?thesis
    using True ilog2_le_6 [of "nat \<lfloor>a\<rfloor>"] by (simp add: binary_exponent_def)
next
  case False
  then show ?thesis
    by (simp add: binary_exponent_def Let_def)
qed

lemma round_half_even_nonneg: "0 \<le> x \<Longrightarrow> 0 \<le> round_half_even x"
  by (simp add: round_half_even_def Let_def)

lemma round_half_even_le:
  assumes "x \<le> of_int N"
  shows "round_half_even x \<le> N"
proof -
  have f: "\<lfloor>x\<rfloor> \<le> N"
    using assms by (simp add: floor_le_iff)
  show ?thesis
  proof (cases "x = of_int \<lfloor>x\<rfloor>")
    case True
    then have "x - of_int \<lfloor>x\<rfloor> < 1 / 2"
      by simp
    with f show ?thesis
      by (simp add: round_half_even_def Let_def)
  next
    case False
    then have "of_int \<lfloor>x\<rfloor> < x"
      using of_int_floor_le [of x] by (auto simp: less_le)
    with assms have "(of_int \<lfloor>x\<rfloor> :: rat) < of_int N"
      by simp
    then have "\<lfloor>x\<rfloor> + 1 \<le> N"
      by simp
    with f show ?thesis
      by (simp add: round_half_even_def Let_def)
  qed
qed

lemma round_double_percent:
  assumes "0 \<le> x" and "x \<le> 100"
  shows "\<exists>p. round_double x = Fin p \<and> 0 \<le> p \<and> p \<le> 100"
proof (cases "x = 0")
  case True
  then show ?thesis
    by (simp add: round_double_def)
next
  case False
  with assms have pos: "0 < x"
    by simp
  define q where "q = max (binary_exponent \<bar>x\<bar> - 52) (- 1074)"
  define k where "k = nat (- q)"
  define m where "m = round_half_even (\<bar>x\<bar> / pow2 q)"
  have "binary_exponent \<bar>x\<bar> \<le> 6"
    using binary_exponent_le_6 [of "\<bar>x\<bar>"] pos assms by simp
  then have "q < 0"
    by (simp add: q_def)
  then have p: "pow2 q = 1 / 2 ^ k"
    by (simp add: pow2_def k_def)
  have a: "\<bar>x\<bar> / pow2 q = x * 2 ^ k"
    using pos by (simp add: p)
  have "x * 2 ^ k \<le> of_int (100 * 2 ^ k)"
    using assms by simp
  then have hi: "m \<le> 100 * 2 ^ k"
    unfolding m_def a by (rule round_half_even_le)
  have "0 \<le> x * 2 ^ k"
    using assms by simp
  then have lo: "0 \<le> m"
    unfolding m_def a by (rule round_half_even_nonneg)
  define r where "r = of_int m * pow2 q"
  have r: "r = of_int m / 2 ^ k"
    by (simp add: r_def p)
  have "(of_int m :: rat) \<le> of_int (100 * 2 ^ k)"
    using hi by (simp only: of_int_le_iff)
  then have "(of_int m :: rat) \<le> 100 * 2 ^ k"
    by simp
  then have r_hi: "r \<le> 100"
    unfolding r by (simp add: divide_le_eq)
  have r_lo: "0 \<le> r"
    unfolding r using lo by simp
  have "\<not> 2 ^ 1024 \<le> r"
  proof
    assume "2 ^ 1024 \<le> r"
    with r_hi have "(2 ^ 1024 :: rat) \<le> 100"
      by simp
    then show False
      by simp
  qed
  then have "round_double x = Fin r"
    using pos False by (simp add: round_double_def Let_def r_def m_def q_def)
  with r_lo r_hi show ?thesis
    by blast
qed

lemma nearest_tenth:
  fixes p :: rat
  assumes "0 \<le> p"
  shows "of_nat (nat \<lfloor>p * 10 + 1 / 2\<rfloor>) / 10 = (of_int \<lfloor>p * 10 + 1 / 2\<rfloor> / 10 :: rat)"
    and "\<bar>of_int \<lfloor>p * 10 + 1 / 2\<rfloor> / 10 - p\<bar> \<le> 1 / 20"
proof -
  have "0 \<le> \<lfloor>p * 10 + 1 / 2\<rfloor>"
    using assms by simp
  then show "of_nat (nat \<lfloor>p * 10 + 1 / 2\<rfloor>) / 10 = (of_int \<lfloor>p * 10 + 1 / 2\<rfloor> / 10 :: rat)"
    by simp
  define n :: rat where "n = of_int \<lfloor>p * 10 + 1 / 2\<rfloor>"
  have lo: "n \<le> p * 10 + 1 / 2"
    unfolding n_def by (rule of_int_floor_le)
  have hi: "p * 10 + 1 / 2 < n + 1"
    unfolding n_def using floor_correct [of "p * 10 + 1 / 2"] by simp
  from lo hi have "\<bar>n / 10 - p\<bar> \<le> 1 / 20"
    by linarith
  then show "\<bar>of_int \<lfloor>p * 10 + 1 / 2\<rfloor> / 10 - p\<bar> \<le> 1 / 20"
    unfolding n_def .
qed


lemma toFixed1_percent:
  assumes "0 \<le> p" and "p \<le> 100"
  shows "toFixed1 (Fin p) = Some (fixed1_digits (nat \<lfloor>p * 10 + 1 / 2\<rfloor>))"
proof -
  have "\<not> (10 ^ 21 \<le> p)"
    using assms by simp
  with assms show ?thesis
    by (simp add: toFixed1_def Let_def)
qed

lemma double_of_8734: "round_double (8734 / 10000) = Fin (3933443914545391 / 4503599627370496)"
  by (simp add: round_double_def binary_exponent_def round_half_even_def pow2_def Let_def
      floor_rat_numeral ilog2_small ilog2_large)

lemma double_8734_times_100:
  "js_times (Fin (3933443914545391 / 4503599627370496)) (Fin 100) =
     Fin (6146006116477173 / 70368744177664)"
  by (simp add: round_double_def binary_exponent_def round_half_even_def pow2_def Let_def
      floor_rat_numeral ilog2_small ilog2_large)

lemma toFixed1_8734: "toFixed1 (Fin (6146006116477173 / 70368744177664)) = Some (lit ''87.3'')"
  by (simp add: toFixed1_def fixed1_digits_def Let_def floor_rat_numeral decimal_small
      decimal_large digit_def lit_def)

lemma round_double_examples:
  "round_double (1 / 10) = Fin (3602879701896397 / 36028797018963968)"
  "round_double (9007199254740993) = Fin 9007199254740992"
  "round_double (9007199254740995) = Fin 9007199254740996"
  "round_double (- (1 / 10)) = Fin (- (3602879701896397 / 36028797018963968))"
  by (simp_all add: round_double_def binary_exponent_def round_half_even_def pow2_def Let_def
      floor_rat_numeral ilog2_small ilog2_large)

lemma score_percent_examples:
  "toFixed1 (Fin 0) = Some (lit ''0.0'')"
  "toFixed1 (Fin 100) = Some (lit ''100.0'')"
  "toFixed1 (Fin (1 / 4)) = Some (lit ''0.3'')"
  "toFixed1 (Fin (- (1 / 25))) = Some (lit ''-0.0'')"
  by (simp_all add: toFixed1_def fixed1_digits_def Let_def floor_rat_numeral decimal_small
      decimal_large digit_def lit_def)

lemma digit_not_minus: "d < 10 \<Longrightarrow> digit d \<noteq> 0x2D"
proof
  assume "d < 10" and "digit d = 0x2D"
  then have "unat (0x2D :: jschar) = 48 + d"
    using unat_digit [of d] by simp
  then show False by simp
qed

lemma decimal_no_minus: "c \<in> set (decimal n) \<Longrightarrow> c \<noteq> 0x2D"
proof (induction n arbitrary: c rule: decimal.induct)
  case (1 n)
  show ?case
  proof (cases "n < 10")
    case True
    with 1(2) show ?thesis
      by (simp add: decimal_small digit_not_minus)
  next
    case False
    then have "decimal n = decimal (n div 10) @ [digit (n mod 10)]"
      by (simp add: decimal_large)
    with 1 False show ?thesis
      by (auto simp: digit_not_minus)
  qed
qed

lemma fixed1_digits_first: "\<exists>c cs. fixed1_digits n = c # cs \<and> c \<noteq> 0x2D"
proof (cases "n < 10")
  case True
  then show ?thesis
    by (simp add: fixed1_digits_eq)
next
  case False
  obtain c cs where d: "decimal (n div 10) = c # cs"
    using decimal_nonempty [of "n div 10"] by (cases "decimal (n div 10)") auto
  then have "c \<noteq> 0x2D"
    using decimal_no_minus [of c "n div 10"] by simp
  with False d show ?thesis
    by (simp add: fixed1_digits_eq)
qed

lemma signed_value_plain:
  "signed_numeral_value (fixed1_digits n) = of_nat n / 10"
proof -
  obtain c cs where f: "fixed1_digits n = c # cs" and c: "c \<noteq> 0x2D"
    using fixed1_digits_first by blast
  have "signed_numeral_value (fixed1_digits n) = numeral_value (fixed1_digits n)"
    unfolding f using c by (simp add: signed_numeral_value_def)
  then show ?thesis
    by (simp only: numeral_value_fixed1)
qed

lemma signed_value_minus:
  "signed_numeral_value (lit ''-'' @ fixed1_digits n) = - (of_nat n / 10)"
proof -
  have "signed_numeral_value (lit ''-'' @ fixed1_digits n) = - numeral_value (fixed1_digits n)"
    by (simp add: signed_numeral_value_def lit_def)
  then show ?thesis
    by (simp only: numeral_value_fixed1)
qed

lemma toFixed1_finite:
  assumes "\<bar>p\<bar> < 10 ^ 21"
  shows "toFixed1 (Fin p) =
     Some ((if p < 0 then lit ''-'' else []) @ fixed1_digits (nat \<lfloor>\<bar>p\<bar> * 10 + 1 / 2\<rfloor>))"
proof (cases "p < 0")
  case True
  with assms have "\<not> (10 ^ 21 \<le> - p)" and "\<bar>p\<bar> = - p"
    by simp_all
  with True show ?thesis
    by (simp add: toFixed1_def Let_def)
next
  case False
  with assms have "\<not> (10 ^ 21 \<le> p)" and "\<bar>p\<bar> = p"
    by simp_all
  with False show ?thesis
    by (simp add: toFixed1_def Let_def)
qed

lemma score_text_finite:
  assumes "\<bar>p\<bar> < 10 ^ 21"
  shows "\<exists>t. toFixed1 (Fin p) = Some t \<and>
     signed_numeral_value t = (if p < 0 then - 1 else 1) * of_int \<lfloor>\<bar>p\<bar> * 10 + 1 / 2\<rfloor> / 10 \<and>
     \<bar>signed_numeral_value t - p\<bar> \<le> 1 / 20 \<and>
     (\<exists>w c. t = w @ [0x2E, c])"
proof -
  let ?n = "nat \<lfloor>\<bar>p\<bar> * 10 + 1 / 2\<rfloor>"
  let ?t = "(if p < 0 then lit ''-'' else []) @ fixed1_digits ?n"
  have a: "0 \<le> \<bar>p\<bar>"
    by simp
  have n: "of_nat ?n / 10 = (of_int \<lfloor>\<bar>p\<bar> * 10 + 1 / 2\<rfloor> / 10 :: rat)"
    by (rule nearest_tenth(1) [OF a])
  have near: "\<bar>of_int \<lfloor>\<bar>p\<bar> * 10 + 1 / 2\<rfloor> / 10 - \<bar>p\<bar>\<bar> \<le> 1 / 20"
    by (rule nearest_tenth(2) [OF a])
  have v: "signed_numeral_value ?t =
      (if p < 0 then - 1 else 1) * of_int \<lfloor>\<bar>p\<bar> * 10 + 1 / 2\<rfloor> / 10"
  proof (cases "p < 0")
    case True
    then show ?thesis
      using signed_value_minus [of ?n] n by simp
  next
    case False
    then show ?thesis
      using signed_value_plain [of ?n] n by simp
  qed
  have d: "\<bar>signed_numeral_value ?t - p\<bar> \<le> 1 / 20"
  proof (cases "p < 0")
    case True
    then have "signed_numeral_value ?t - p = - (of_int \<lfloor>\<bar>p\<bar> * 10 + 1 / 2\<rfloor> / 10 - \<bar>p\<bar>)"
      unfolding v by simp
    then show ?thesis
      using near by (simp only: abs_minus_cancel)
  next
    case False
    then have "signed_numeral_value ?t - p = of_int \<lfloor>\<bar>p\<bar> * 10 + 1 / 2\<rfloor> / 10 - \<bar>p\<bar>"
      unfolding v by simp
    then show ?thesis
      using near by (simp only:)
  qed
  have shape: "\<exists>w c. ?t = w @ [0x2E, c]"
  proof -
    obtain w c where "fixed1_digits ?n = w @ [0x2E, c]"
      unfolding fixed1_digits_eq by blast
    then have "?t = ((if p < 0 then lit ''-'' else []) @ w) @ [0x2E, c]"
      by simp
    then show ?thesis
      by blast
  qed
  from toFixed1_finite [OF assms] v d shape show ?thesis
    by blast
qed

lemma score_percent_unit_interval:
  assumes "score d = Fin s" and "0 \<le> s" and "s \<le> 1"
  shows "\<exists>p t. js_times (score d) (Fin 100) = Fin p \<and> 0 \<le> p \<and> p \<le> 100 \<and>
            score_percent d = Some t \<and>
            numeral_value t = of_int \<lfloor>p * 10 + 1 / 2\<rfloor> / 10 \<and>
            \<bar>numeral_value t - p\<bar> \<le> 1 / 20 \<and>
            (\<exists>w c. t = w @ [0x2E, c])"
proof -
  have "0 \<le> s * 100" and "s * 100 \<le> 100"
    using assms by simp_all
  then obtain p where p: "round_double (s * 100) = Fin p" and lo: "0 \<le> p" and hi: "p \<le> 100"
    using round_double_percent by blast
  let ?n = "nat \<lfloor>p * 10 + 1 / 2\<rfloor>"
  have times: "js_times (score d) (Fin 100) = Fin p"
    by (simp add: assms(1) p)
  then have shown: "score_percent d = Some (fixed1_digits ?n)"
    by (simp add: score_percent_def toFixed1_percent [OF lo hi])
  have v: "numeral_value (fixed1_digits ?n) = of_int \<lfloor>p * 10 + 1 / 2\<rfloor> / 10"
    by (simp only: numeral_value_fixed1 nearest_tenth(1) [OF lo])
  have near: "\<bar>numeral_value (fixed1_digits ?n) - p\<bar> \<le> 1 / 20"
    unfolding v by (rule nearest_tenth(2) [OF lo])
  have shape: "\<exists>w c. fixed1_digits ?n = w @ [0x2E, c]"
    unfolding fixed1_digits_eq by blast
  from times lo hi shown v near shape show ?thesis
    by blast
qed

lemma score_percent_8734:
  "score_percent (d\<lparr>score := round_double (8734 / 10000)\<rparr>) = Some (lit ''87.3'')"
proof -
  have sel: "score (d\<lparr>score := round_double (8734 / 10000)\<rparr>) =
      Fin (3933443914545391 / 4503599627370496)"
    unfolding double_of_8734 by simp
  show ?thesis
    by (simp only: score_percent_def sel double_8734_times_100 toFixed1_8734)
qed

text \<open>
  C7 (amended). The text displayed is the product of doubles \<open>doc.score * 100\<close>, that
  is the exact product rounded to the nearest double, printed with one digit after the
  point: whenever that product is a finite double \<open>p\<close> below \<open>10 ^ 21\<close> in
  magnitude, the text is a decimal numeral whose value is \<open>p\<close> rounded to the nearest
  tenth, a tie going away from zero, so it differs from \<open>p\<close> by at most one twentieth.
  For a score between 0 and 1 the product is such a double, between 0 and 100. A product
  that is not a number prints as \<open>NaN\<close>. The score \<open>0.8734\<close>, that is the double
  nearest to it, is displayed as \<open>87.3\<close>.
\<close>

theorem score_percent_one_decimal:
  "(js_times (score d) (Fin 100) = Fin p \<and> \<bar>p\<bar> < 10 ^ 21 \<longrightarrow>
      (\<exists>t. score_percent d = Some t \<and>
           signed_numeral_value t =
             (if p < 0 then - 1 else 1) * of_int \<lfloor>\<bar>p\<bar> * 10 + 1 / 2\<rfloor> / 10 \<and>
           \<bar>signed_numeral_value t - p\<bar> \<le> 1 / 20 \<and>
           (\<exists>w c. t = w @ [0x2E, c]))) \<and>
   (score d = Fin s \<and> 0 \<le> s \<and> s \<le> 1 \<longrightarrow>
      (\<exists>q t. js_times (score d) (Fin 100) = Fin q \<and> 0 \<le> q \<and> q \<le> 100 \<and>
           score_percent d = Some t \<and>
           numeral_value t = of_int \<lfloor>q * 10 + 1 / 2\<rfloor> / 10 \<and>
           \<bar>numeral_value t - q\<bar> \<le> 1 / 20 \<and>
           (\<exists>w c. t = w @ [0x2E, c]))) \<and>
   (js_times (score d) (Fin 100) = NaN \<longrightarrow> score_percent d = Some (lit ''NaN'')) \<and>
   score_percent (d\<lparr>score := round_double (8734 / 10000)\<rparr>) = Some (lit ''87.3'')"
proof (intro conjI impI)
  assume "js_times (score d) (Fin 100) = Fin p \<and> \<bar>p\<bar> < 10 ^ 21"
  then have j: "js_times (score d) (Fin 100) = Fin p" and b: "\<bar>p\<bar> < 10 ^ 21"
    by simp_all
  show "\<exists>t. score_percent d = Some t \<and>
           signed_numeral_value t =
             (if p < 0 then - 1 else 1) * of_int \<lfloor>\<bar>p\<bar> * 10 + 1 / 2\<rfloor> / 10 \<and>
           \<bar>signed_numeral_value t - p\<bar> \<le> 1 / 20 \<and>
           (\<exists>w c. t = w @ [0x2E, c])"
    unfolding score_percent_def j by (rule score_text_finite [OF b])
next
  assume "score d = Fin s \<and> 0 \<le> s \<and> s \<le> 1"
  then have "score d = Fin s" and "0 \<le> s" and "s \<le> 1"
    by simp_all
  then show "\<exists>q t. js_times (score d) (Fin 100) = Fin q \<and> 0 \<le> q \<and> q \<le> 100 \<and>
           score_percent d = Some t \<and>
           numeral_value t = of_int \<lfloor>q * 10 + 1 / 2\<rfloor> / 10 \<and>
           \<bar>numeral_value t - q\<bar> \<le> 1 / 20 \<and>
           (\<exists>w c. t = w @ [0x2E, c])"
    by (rule score_percent_unit_interval)
next
  assume "js_times (score d) (Fin 100) = NaN"
  then show "score_percent d = Some (lit ''NaN'')"
    by (simp add: score_percent_def toFixed1_def)
next
  show "score_percent (d\<lparr>score := round_double (8734 / 10000)\<rparr>) = Some (lit ''87.3'')"
    by (rule score_percent_8734)
qed

theorem score_percent_one_decimal_witness:
  "(0 :: rat) \<le> 3933443914545391 / 4503599627370496 \<and>
   (3933443914545391 / 4503599627370496 :: rat) \<le> 1 \<and>
   \<bar>6146006116477173 / 70368744177664 :: rat\<bar> < 10 ^ 21 \<and>
   round_double (8734 / 10000) = Fin (3933443914545391 / 4503599627370496) \<and>
   js_times (Fin (3933443914545391 / 4503599627370496)) (Fin 100) =
     Fin (6146006116477173 / 70368744177664) \<and>
   score_percent
     \<lparr>title = [], abs_text = [], authors = [], advisors = [], co_advisors = [],
      keyword_text = [], score = Fin (3933443914545391 / 4503599627370496)\<rparr> =
     Some (lit ''87.3'') \<and>
   numeral_value (lit ''87.3'') = 873 / 10 \<and>
   signed_numeral_value (lit ''87.3'') = 873 / 10 \<and>
   js_times NaN (Fin 100) = NaN \<and>
   score_percent
     \<lparr>title = [], abs_text = [], authors = [], advisors = [], co_advisors = [],
      keyword_text = [], score = NaN\<rparr> = Some (lit ''NaN'')"
proof -
  let ?d = "\<lparr>title = [], abs_text = [], authors = [], advisors = [], co_advisors = [],
      keyword_text = [], score = Fin (3933443914545391 / 4503599627370496)\<rparr>"
  let ?e = "\<lparr>title = [], abs_text = [], authors = [], advisors = [], co_advisors = [],
      keyword_text = [], score = NaN\<rparr>"
  have s: "score ?d = Fin (3933443914545391 / 4503599627370496)"
    by simp
  have lo: "(0 :: rat) \<le> 3933443914545391 / 4503599627370496"
    and hi: "(3933443914545391 / 4503599627370496 :: rat) \<le> 1"
    and bd: "\<bar>6146006116477173 / 70368744177664 :: rat\<bar> < 10 ^ 21"
    by simp_all
  have j: "js_times (score ?d) (Fin 100) = Fin (6146006116477173 / 70368744177664)"
    unfolding s by (rule double_8734_times_100)
  have t: "score_percent ?d = Some (lit ''87.3'')"
    by (simp only: score_percent_def s double_8734_times_100 toFixed1_8734)
  have f: "\<lfloor>\<bar>6146006116477173 / 70368744177664 :: rat\<bar> * 10 + 1 / 2\<rfloor> = 873"
    "\<lfloor>(6146006116477173 / 70368744177664 :: rat) * 10 + 1 / 2\<rfloor> = 873"
    by (simp_all add: floor_rat_numeral)
  have pos: "\<not> (6146006116477173 / 70368744177664 :: rat) < 0"
    by simp
  note claim = score_percent_one_decimal
      [where d = ?d and p = "6146006116477173 / 70368744177664"
         and s = "3933443914545391 / 4503599627370496"]
  from claim j bd obtain u where u: "score_percent ?d = Some u"
    and v: "signed_numeral_value u =
      (if (6146006116477173 / 70368744177664 :: rat) < 0 then - 1 else 1) *
      of_int \<lfloor>\<bar>6146006116477173 / 70368744177664 :: rat\<bar> * 10 + 1 / 2\<rfloor> / 10"
    by blast
  from u t have "u = lit ''87.3''"
    by simp
  with v have sv: "signed_numeral_value (lit ''87.3'') = 873 / 10"
    unfolding f using pos by simp
  from claim s lo hi obtain q w
    where jq: "js_times (score ?d) (Fin 100) = Fin q" and w: "score_percent ?d = Some w"
      and nv: "numeral_value w = of_int \<lfloor>q * 10 + 1 / 2\<rfloor> / 10"
    by blast
  from jq j have q: "q = 6146006116477173 / 70368744177664"
    by simp
  from w t have "w = lit ''87.3''"
    by simp
  with nv have n: "numeral_value (lit ''87.3'') = 873 / 10"
    unfolding q f by simp
  have jn: "js_times NaN (Fin 100) = NaN"
    by simp
  have "js_times (score ?e) (Fin 100) = NaN"
    by simp
  with score_percent_one_decimal [where d = ?e] have nan: "score_percent ?e = Some (lit ''NaN'')"
    by blast
  from lo hi bd t sv n jn nan show ?thesis
    using double_of_8734 double_8734_times_100 by blast
qed

text \<open>
  The text is not always the exact product rounded: for the score \<open>0.8305\<close> the exact
  product, of the decimal as of the double nearest to it, rounds to \<open>83.1\<close>, and the
  text displayed is \<open>83.0\<close>, because the product of doubles lies below \<open>83.05\<close>.
\<close>

theorem score_percent_differs_from_exact_product:
  "round_double (8305 / 10000) = Fin (3740239490531197 / 4503599627370496) \<and>
   js_times (Fin (3740239490531197 / 4503599627370496)) (Fin 100) =
     Fin (5844124203954995 / 70368744177664) \<and>
   score_percent
     \<lparr>title = [], abs_text = [], authors = [], advisors = [], co_advisors = [],
      keyword_text = [], score = Fin (3740239490531197 / 4503599627370496)\<rparr> =
     Some (lit ''83.0'') \<and>
   \<lfloor>(3740239490531197 / 4503599627370496 :: rat) * 100 * 10 + 1 / 2\<rfloor> = 831 \<and>
   \<lfloor>(8305 / 10000 :: rat) * 100 * 10 + 1 / 2\<rfloor> = 831"
proof -
  have r: "round_double (8305 / 10000) = Fin (3740239490531197 / 4503599627370496)"
    by (simp add: round_double_def binary_exponent_def round_half_even_def pow2_def Let_def
        floor_rat_numeral ilog2_small ilog2_large)
  have j: "js_times (Fin (3740239490531197 / 4503599627370496)) (Fin 100) =
     Fin (5844124203954995 / 70368744177664)"
    by (simp add: round_double_def binary_exponent_def round_half_even_def pow2_def Let_def
        floor_rat_numeral ilog2_small ilog2_large)
  have t: "toFixed1 (Fin (5844124203954995 / 70368744177664)) = Some (lit ''83.0'')"
    by (simp add: toFixed1_def fixed1_digits_def Let_def floor_rat_numeral decimal_small
        decimal_large digit_def lit_def)
  have s: "score \<lparr>title = [], abs_text = [], authors = [], advisors = [], co_advisors = [],
      keyword_text = [], score = Fin (3740239490531197 / 4503599627370496)\<rparr> =
      Fin (3740239490531197 / 4503599627370496)"
    by simp
  have p: "score_percent
     \<lparr>title = [], abs_text = [], authors = [], advisors = [], co_advisors = [],
      keyword_text = [], score = Fin (3740239490531197 / 4503599627370496)\<rparr> =
     Some (lit ''83.0'')"
    by (simp only: score_percent_def s j t)
  have f: "\<lfloor>(3740239490531197 / 4503599627370496 :: rat) * 100 * 10 + 1 / 2\<rfloor> = 831"
    "\<lfloor>(8305 / 10000 :: rat) * 100 * 10 + 1 / 2\<rfloor> = 831"
    by (simp_all add: floor_rat_numeral)
  from r j p f show ?thesis
    by blast
qed

end
